theory Spec2Isabelle
  imports Main "HOL-Library.AList"
begin

section \<open>JavaScript values used by the pairing service\<close>

text \<open>
  Strings are \<open>string\<close>. A request-body field is a \<open>string option\<close>: \<open>None\<close> is a
  field that is missing (\<open>undefined\<close>). JavaScript's \<open>!x\<close> is true for \<open>undefined\<close> and
  for the empty string. Body fields of other JSON types are outside this model.
\<close>

definition falsy :: "string option \<Rightarrow> bool" where
  "falsy v = (case v of None \<Rightarrow> True | Some s \<Rightarrow> s = [])"

definition is_digit :: "char \<Rightarrow> bool" where
  "is_digit c = (c \<in> set ''0123456789'')"

text \<open>\<^verbatim>\<open>phoneNumber.replace(/[^0-9]/g, '')\<close> in \<^verbatim>\<open>routes/pair.js\<close>.\<close>

definition strip_non_digits :: "string \<Rightarrow> string" where
  "strip_non_digits s = filter is_digit s"

text \<open>\<^verbatim>\<open>/^\d{8}$/.test(code)\<close> in \<^verbatim>\<open>routes/pair.js\<close>.\<close>

definition eight_digits :: "string \<Rightarrow> bool" where
  "eight_digits s = (length s = 8 \<and> list_all is_digit s)"

text \<open>
  \<^verbatim>\<open>s.replace('+', '')\<close> with a string pattern removes the first occurrence only.
\<close>

fun replace_plus :: "string \<Rightarrow> string" where
  "replace_plus [] = []"
| "replace_plus (c # cs) = (if c = CHR ''+'' then cs else c # replace_plus cs)"

text \<open>\<^verbatim>\<open>Number.prototype.toString\<close> on a non-negative integer below \<open>10^21\<close>: plain decimal.\<close>

definition digit_char :: "nat \<Rightarrow> char" where
  "digit_char d = ''0123456789'' ! (d mod 10)"

fun toString :: "nat \<Rightarrow> string" where
  "toString n = (if n < 10 then [digit_char n] else toString (n div 10) @ [digit_char (n mod 10)])"

declare toString.simps [simp del]

text \<open>
  JavaScript numbers are binary64. A draw of \<^verbatim>\<open>Math.random()\<close> is a binary64 number in
  \<open>[0, 1)\<close>: it is \<open>mantissa / 2 ^ exponent\<close> with a mantissa below \<open>2 ^ 53\<close> and an
  exponent from 53 to 1074 (the subnormal numbers have exponent 1074). Numbers are
  counted in units of \<open>2 ^ - exponent\<close>, so that they are natural numbers; every number met
  here is a multiple of the unit and below \<open>2 ^ 27\<close>.
\<close>

record draw =
  mantissa :: nat
  exponent :: nat

definition is_draw :: "draw \<Rightarrow> bool" where
  "is_draw d = (mantissa d < 2 ^ 53 \<and> 53 \<le> exponent d \<and> exponent d \<le> 1074)"

text \<open>
  The result of an arithmetic operation is rounded to 53 significant bits, to the nearest
  such number, and to the one with an even last bit when two are equally near.
\<close>

fun bitlen :: "nat \<Rightarrow> nat" where
  "bitlen n = (if n = 0 then 0 else Suc (bitlen (n div 2)))"

declare bitlen.simps [simp del]

definition round_even :: "nat \<Rightarrow> nat \<Rightarrow> nat" where
  "round_even n sh =
     (let q = n div 2 ^ sh; rest = n mod 2 ^ sh in
      (if 2 ^ sh < 2 * rest \<or> (2 * rest = 2 ^ sh \<and> odd q) then q + 1 else q) * 2 ^ sh)"

definition round53 :: "nat \<Rightarrow> nat" where
  "round53 n = round_even n (bitlen n - 53)"

text \<open>
  \<^verbatim>\<open>Math.floor(10000000 + Math.random() * 90000000).toString()\<close>: the product is
  rounded, then the sum is rounded, then the fraction is cut off.
\<close>

definition pairing_number :: "draw \<Rightarrow> nat" where
  "pairing_number d =
     (let k = exponent d;
          product = round53 (mantissa d * 90000000);
          total = round53 (10000000 * 2 ^ k + product)
      in total div 2 ^ k)"

definition generatePairingCode :: "draw \<Rightarrow> string" where
  "generatePairingCode d = toString (pairing_number d)"

text \<open>
  The number that a string of decimal digits denotes; the character code of \<open>0\<close> is 48.
\<close>

definition digit_value :: "char \<Rightarrow> nat" where
  "digit_value c = of_char c - 48"

definition parseInt :: "string \<Rightarrow> nat" where
  "parseInt s = foldl (\<lambda>a c. 10 * a + digit_value c) 0 s"

section \<open>State of the bot service\<close>

text \<open>
  The two module-level \<^verbatim>\<open>Map\<close>s are association lists in insertion order, written with
  \<open>AList.update\<close> (\<^verbatim>\<open>Map.set\<close>: overwrite in place, or append), \<open>AList.delete\<close> and
  \<open>map_of\<close> (\<^verbatim>\<open>Map.get\<close>). A socket is an object on the heap \<open>sockets\<close>, and a handle
  is its index there, so that the registry and a pairing entry can share one socket.
\<close>

record pairing_entry =
  code :: string
  socket :: nat
  phoneNumber :: string
  createdAt :: nat

record wa_socket =
  sock_botId :: string
  sock_phoneNumber :: string
  registered :: bool
  user :: "string option"

datatype timer = ExpirePairing string | Reconnect string string

record bot_state =
  activeSockets :: "(string \<times> nat) list"
  pairingCodes :: "(string \<times> pairing_entry) list"
  sockets :: "wa_socket list"
  timers :: "(nat \<times> timer) list"
  now :: nat
  dirs :: "string list"
  native_calls :: "(nat \<times> string) list"
  emitted :: "(string \<times> string) list"
  attempts :: nat

text \<open>
  What the protocol library and the random number generator give to the \<open>k\<close>-th call of
  \<^verbatim>\<open>createBotSessionWithPairing\<close>: \<^verbatim>\<open>useMultiFileAuthState\<close> either throws or yields
  credentials (their \<^verbatim>\<open>registered\<close> flag and the user descriptor, if any).
\<close>

datatype auth_result = AuthThrows | AuthLoaded bool "string option"

record env =
  auth_load :: "nat \<Rightarrow> auth_result"
  random :: "nat \<Rightarrow> draw"

datatype error = LibraryError

definition init :: bot_state where
  "init = \<lparr>activeSockets = [], pairingCodes = [], sockets = [], timers = [], now = 0,
           dirs = [''sessions''], native_calls = [], emitted = [], attempts = 0\<rparr>"

text \<open>
  \<^verbatim>\<open>path.join(SESSION_BASE_PATH, `session_${botId}`)\<close> with POSIX separators: the two
  parts are joined with a slash and the result is normalized (empty and \<open>.\<close> segments are
  dropped, \<open>..\<close> takes the segment before it away). The joined path starts with \<open>./\<close>, so
  it is relative.
\<close>

fun split_path :: "string \<Rightarrow> string list" where
  "split_path [] = [[]]"
| "split_path (c # cs) =
     (if c = CHR ''/'' then [] # split_path cs
      else (case split_path cs of [] \<Rightarrow> [[c]] | x # xs \<Rightarrow> (c # x) # xs))"

definition push_segment :: "string list \<Rightarrow> string \<Rightarrow> string list" where
  "push_segment res seg =
     (if seg = [] \<or> seg = ''.'' then res
      else if seg = ''..'' then
        (if res \<noteq> [] \<and> last res \<noteq> ''..'' then butlast res else res @ [''..''])
      else res @ [seg])"

fun join_segments :: "string list \<Rightarrow> string" where
  "join_segments [] = []"
| "join_segments [x] = x"
| "join_segments (x # y # ys) = x @ ''/'' @ join_segments (y # ys)"

definition normalize_relative :: "string \<Rightarrow> string" where
  "normalize_relative p =
     (let res = join_segments (foldl push_segment [] (split_path p));
          trailingSeparator = (p \<noteq> [] \<and> last p = CHR ''/'')
      in if res = [] then (if trailingSeparator then ''./'' else ''.'')
         else if trailingSeparator then res @ ''/'' else res)"

definition sessionPath :: "string \<Rightarrow> string" where
  "sessionPath botId = normalize_relative (''./sessions'' @ ''/'' @ ''session_'' @ botId)"

section \<open>The bot service\<close>

text \<open>
  \<^verbatim>\<open>createBotSessionWithPairing\<close>. Everything after the one \<^verbatim>\<open>await\<close> runs without
  interruption, so the call is one step. The ten-minute timer is queued, not run.
\<close>

definition createBotSessionWithPairing ::
  "env \<Rightarrow> bot_state \<Rightarrow> string \<Rightarrow> string \<Rightarrow> (error + string option) \<times> bot_state" where
  "createBotSessionWithPairing e s botId phone =
    (let k = attempts s; s0 = s\<lparr>attempts := Suc k\<rparr> in
     case auth_load e k of
       AuthThrows \<Rightarrow> (Inl LibraryError, s0)
     | AuthLoaded reg me \<Rightarrow>
        (let sock = length (sockets s0);
             s1 = s0\<lparr>dirs := List.insert (sessionPath botId) (dirs s0),
                     sockets := sockets s0 @
                       [\<lparr>sock_botId = botId, sock_phoneNumber = phone,
                         registered = reg, user = me\<rparr>],
                     activeSockets := AList.update botId sock (activeSockets s0)\<rparr>
         in if \<not> reg then
              (let pairingCode = generatePairingCode (random e k);
                   s2 = s1\<lparr>pairingCodes := AList.update botId
                             \<lparr>code = pairingCode, socket = sock, phoneNumber = phone,
                              createdAt = now s1\<rparr> (pairingCodes s1),
                           timers := timers s1 @ [(now s1 + 600000, ExpirePairing botId)]\<rparr>
               in (Inr (Some pairingCode), s2))
            else (Inr None, s1)))"

text \<open>The \<^verbatim>\<open>connection.update\<close> handler of a socket; \<open>botId\<close> and \<open>phone\<close> are its closure.\<close>

datatype connection = ConnOpen | ConnClose | ConnConnecting

record update =
  connection :: "connection option"
  statusCode :: "nat option"

definition connection_update :: "bot_state \<Rightarrow> string \<Rightarrow> string \<Rightarrow> update \<Rightarrow> bot_state" where
  "connection_update s botId phone u =
    (if connection u = Some ConnOpen then
       s\<lparr>pairingCodes := AList.delete botId (pairingCodes s),
         emitted := emitted s @ [(botId, ''connected'')]\<rparr>
     else if connection u = Some ConnClose then
       (let shouldReconnect = (statusCode u \<noteq> Some 401) in
        if shouldReconnect then
          s\<lparr>timers := timers s @ [(now s + 5000, Reconnect botId phone)]\<rparr>
        else
          s\<lparr>pairingCodes := AList.delete botId (pairingCodes s),
            activeSockets := AList.delete botId (activeSockets s)\<rparr>)
     else s)"

text \<open>
  \<^verbatim>\<open>verifyPairingCode\<close>. \<open>outcome\<close> is what \<^verbatim>\<open>socket.requestPairingCode\<close> does when it
  is called: \<open>None\<close> resolves, \<open>Some msg\<close> rejects with \<^verbatim>\<open>error.message = msg\<close>.
\<close>

record verify_result =
  success :: bool
  message :: string

definition verifyPairingCode ::
  "bot_state \<Rightarrow> string \<Rightarrow> string \<Rightarrow> string option \<Rightarrow> verify_result \<times> bot_state" where
  "verifyPairingCode s botId c outcome =
    (case map_of (pairingCodes s) botId of
       None \<Rightarrow> (\<lparr>success = False, message = ''Pairing code expired or invalid''\<rparr>, s)
     | Some pairingData \<Rightarrow>
        if code pairingData \<noteq> c then
          (\<lparr>success = False, message = ''Invalid pairing code''\<rparr>, s)
        else
          (let s' = s\<lparr>native_calls := native_calls s @
                       [(socket pairingData, replace_plus (phoneNumber pairingData))]\<rparr>
           in case outcome of
                None \<Rightarrow> (\<lparr>success = True, message = ''Pairing successful''\<rparr>, s')
              | Some msg \<Rightarrow> (\<lparr>success = False, message = ''Pairing failed: '' @ msg\<rparr>, s')))"

datatype conn_status = connected | disconnected

record bot_status =
  status :: conn_status
  online :: bool
  status_user :: "string option"
  lastSeen :: nat

definition getBotStatus :: "bot_state \<Rightarrow> string \<Rightarrow> bot_status" where
  "getBotStatus s botId =
    (let sock = map_of (activeSockets s) botId in
     \<lparr>status = (if sock \<noteq> None then connected else disconnected),
      online = (sock \<noteq> None),
      status_user = (case sock of None \<Rightarrow> None
                     | Some a \<Rightarrow> if a < length (sockets s) then user (sockets s ! a) else None),
      lastSeen = now s\<rparr>)"

section \<open>The HTTP routes of \<^verbatim>\<open>routes/pair.js\<close>\<close>

datatype json_body =
  Failure string
| Generated string "string option" string string
| Verified string
| StatusData bot_status

record response =
  http_status :: nat
  body :: json_body

record request_body =
  req_botId :: "string option"
  req_phoneNumber :: "string option"
  req_code :: "string option"

text \<open>
  \<^verbatim>\<open>router.post('/generate')\<close>. \<^verbatim>\<open>res.json\<close> without \<^verbatim>\<open>res.status\<close> answers 200; an
  exception of the service is caught and answered 500.
\<close>

definition route_generate :: "env \<Rightarrow> bot_state \<Rightarrow> request_body \<Rightarrow> response \<times> bot_state" where
  "route_generate e s b =
    (if falsy (req_botId b) \<or> falsy (req_phoneNumber b) then
       (\<lparr>http_status = 400, body = Failure ''Bot ID and phone number are required''\<rparr>, s)
     else
       (let botId = the (req_botId b);
            cleanNumber = strip_non_digits (the (req_phoneNumber b)) in
        if length cleanNumber < 10 then
          (\<lparr>http_status = 400, body = Failure ''Invalid phone number format''\<rparr>, s)
        else
          (case createBotSessionWithPairing e s botId (''+'' @ cleanNumber) of
             (Inl err, s') \<Rightarrow>
               (\<lparr>http_status = 500, body = Failure ''Failed to generate pairing code''\<rparr>, s')
           | (Inr pairingCode, s') \<Rightarrow>
               (\<lparr>http_status = 200,
                 body = Generated botId pairingCode
                   ''Use this 8-digit code in WhatsApp > Linked Devices > Link a Device''
                   ''10 minutes''\<rparr>, s'))))"

text \<open>
  \<^verbatim>\<open>router.post('/verify')\<close>. The success message is written without the emoji it
  starts with in the source.
\<close>

definition route_verify ::
  "bot_state \<Rightarrow> request_body \<Rightarrow> string option \<Rightarrow> response \<times> bot_state" where
  "route_verify s b outcome =
    (if falsy (req_botId b) \<or> falsy (req_code b) then
       (\<lparr>http_status = 400, body = Failure ''Bot ID and code are required''\<rparr>, s)
     else if \<not> eight_digits (the (req_code b)) then
       (\<lparr>http_status = 400, body = Failure ''Invalid code format. Must be 8 digits.''\<rparr>, s)
     else
       (case verifyPairingCode s (the (req_botId b)) (the (req_code b)) outcome of
          (result, s') \<Rightarrow>
            if success result then
              (\<lparr>http_status = 200, body = Verified ''Bot connected successfully!''\<rparr>, s')
            else
              (\<lparr>http_status = 400, body = Failure (message result)\<rparr>, s')))"

text \<open>
  \<^verbatim>\<open>router.get('/status/:botId')\<close>. The handler calls \<^verbatim>\<open>getBotStatus\<close> by its bare name.
  The names bound in the module are those destructured from
  \<^verbatim>\<open>require('../services/botService')\<close> on line 7; a name that is not bound raises
  \<^verbatim>\<open>ReferenceError\<close> inside the \<^verbatim>\<open>try\<close> block, which answers 500.
\<close>

definition botService_exports :: "string list" where
  "botService_exports = [''createBotSessionWithPairing'', ''verifyPairingCode'',
     ''getPairingCode'', ''getConnectedBots'', ''getBotStatus'']"

definition pair_imports :: "string list" where
  "pair_imports = [''createBotSessionWithPairing'', ''verifyPairingCode'', ''getConnectedBots'']"

definition route_status :: "bot_state \<Rightarrow> string \<Rightarrow> response" where
  "route_status s botId =
    (if ''getBotStatus'' \<in> set pair_imports then
       \<lparr>http_status = 200, body = StatusData (getBotStatus s botId)\<rparr>
     else
       \<lparr>http_status = 500, body = Failure ''Failed to get bot status''\<rparr>)"

section \<open>Timers and the event loop\<close>

text \<open>
  \<^verbatim>\<open>setTimeout\<close> queues a callback with the time it is due. The loop runs the callback
  that is due first (the one queued first among equals), and a callback runs at the time
  it is due: the model's clock is logical time in milliseconds.
\<close>

fun earliest :: "(nat \<times> timer) list \<Rightarrow> (nat \<times> timer) option" where
  "earliest [] = None"
| "earliest (x # xs) =
     (case earliest xs of
        None \<Rightarrow> Some x
      | Some y \<Rightarrow> if fst y < fst x then Some y else Some x)"

text \<open>
  The callback of the ten-minute timer set by \<^verbatim>\<open>createBotSessionWithPairing\<close>, and the
  callback of the five-second timer set by the close handler (whose result is dropped).
\<close>

fun fire_timer :: "env \<Rightarrow> bot_state \<Rightarrow> timer \<Rightarrow> bot_state" where
  "fire_timer e s (ExpirePairing botId) =
     (if botId \<in> fst ` set (pairingCodes s)
      then s\<lparr>pairingCodes := AList.delete botId (pairingCodes s)\<rparr>
      else s)"
| "fire_timer e s (Reconnect botId phone) = snd (createBotSessionWithPairing e s botId phone)"

definition timer_weight :: "(nat \<times> timer) \<Rightarrow> nat" where
  "timer_weight x = (case snd x of ExpirePairing b \<Rightarrow> 1 | Reconnect b p \<Rightarrow> 3)"

definition queue_weight :: "(nat \<times> timer) list \<Rightarrow> nat" where
  "queue_weight ts = sum_list (map timer_weight ts)"

lemma earliest_None: "earliest ts = None \<longleftrightarrow> ts = []"
  by (induction ts) (auto split: option.splits)

lemma earliest_mem: "earliest ts = Some x \<Longrightarrow> x \<in> set ts"
  by (induction ts arbitrary: x) (auto split: option.splits if_splits)

lemma earliest_least: "earliest ts = Some x \<Longrightarrow> y \<in> set ts \<Longrightarrow> fst x \<le> fst y"
  by (induction ts arbitrary: x) (auto simp: earliest_None split: option.splits if_splits)

lemma queue_weight_remove1:
  "x \<in> set ts \<Longrightarrow> queue_weight (remove1 x ts) + timer_weight x = queue_weight ts"
  by (induction ts) (auto simp: queue_weight_def)

lemma timers_create:
  "timers (snd (createBotSessionWithPairing e s b p)) = timers s \<or>
   timers (snd (createBotSessionWithPairing e s b p)) =
     timers s @ [(now s + 600000, ExpirePairing b)]"
  by (simp add: createBotSessionWithPairing_def Let_def split: auth_result.splits)

lemma queue_weight_fire:
  "queue_weight (timers (fire_timer e s a)) < queue_weight (timers s) + timer_weight (d, a)"
proof (cases a)
  case (ExpirePairing b)
  then show ?thesis by (simp add: timer_weight_def)
next
  case (Reconnect b p)
  then show ?thesis
    using timers_create [of e s b p]
    by (auto simp: timer_weight_def queue_weight_def)
qed

text \<open>
  Run every callback that is due at time \<open>t\<close> or before, the earliest first. A callback
  may queue further timers (a reconnect queues an expiry); they run in the same pass when
  they are due by \<open>t\<close> as well.
\<close>

function fire_due :: "env \<Rightarrow> nat \<Rightarrow> bot_state \<Rightarrow> bot_state" where
  "fire_due e t s =
    (case earliest (timers s) of
       None \<Rightarrow> s
     | Some x \<Rightarrow>
        if fst x \<le> t then
          fire_due e t
            (fire_timer e (s\<lparr>timers := remove1 x (timers s), now := max (now s) (fst x)\<rparr>)
               (snd x))
        else s)"
  by pat_completeness auto
termination
proof (relation "measure (\<lambda>(e, t, s). queue_weight (timers s))")
  show "wf (measure (\<lambda>(e, t, s). queue_weight (timers s)))" by simp
next
  fix e :: env and t :: nat and s :: bot_state and x
  assume x: "earliest (timers s) = Some x" and "fst x \<le> t"
  let ?s' = "s\<lparr>timers := remove1 x (timers s), now := max (now s) (fst x)\<rparr>"
  have mem: "x \<in> set (timers s)" using x by (rule earliest_mem)
  have w: "queue_weight (remove1 x (timers s)) + timer_weight x = queue_weight (timers s)"
    using mem by (rule queue_weight_remove1)
  have "queue_weight (timers (fire_timer e ?s' (snd x)))
          < queue_weight (timers ?s') + timer_weight (fst x, snd x)"
    by (rule queue_weight_fire)
  then have "queue_weight (timers (fire_timer e ?s' (snd x))) < queue_weight (timers s)"
    using w by auto
  then show "((e, t, fire_timer e ?s' (snd x)), (e, t, s))
               \<in> measure (\<lambda>(e, t, s). queue_weight (timers s))"
    by simp
qed

declare fire_due.simps [simp del]

text \<open>Let the clock reach \<open>t\<close> (it never goes back), running what is due on the way.\<close>

definition advance :: "env \<Rightarrow> nat \<Rightarrow> bot_state \<Rightarrow> bot_state" where
  "advance e t s = (let t' = max t (now s) in (fire_due e t' s)\<lparr>now := t'\<rparr>)"

text \<open>
  What can happen to the service: the two POST requests, a \<^verbatim>\<open>connection.update\<close> event
  of a socket that was created (the handler's closure is read from the socket), and the
  library attaching a user descriptor to a socket. Requests that only read are not events.
\<close>

datatype event =
  Generate request_body
| Verify request_body "string option"
| ConnectionUpdate nat update
| SetUser nat "string option"

fun handle :: "env \<Rightarrow> bot_state \<Rightarrow> event \<Rightarrow> bot_state" where
  "handle e s (Generate b) = snd (route_generate e s b)"
| "handle e s (Verify b outcome) = snd (route_verify s b outcome)"
| "handle e s (ConnectionUpdate a u) =
     (if a < length (sockets s)
      then connection_update s (sock_botId (sockets s ! a)) (sock_phoneNumber (sockets s ! a)) u
      else s)"
| "handle e s (SetUser a u) =
     (if a < length (sockets s)
      then s\<lparr>sockets := (sockets s)[a := (sockets s ! a)\<lparr>user := u\<rparr>]\<rparr>
      else s)"

text \<open>A run: each event carries the time at which it arrives.\<close>

fun run :: "env \<Rightarrow> bot_state \<Rightarrow> (nat \<times> event) list \<Rightarrow> bot_state" where
  "run e s [] = s"
| "run e s ((t, ev) # evs) = run e (handle e (advance e t s) ev) evs"

section \<open>The default session of \<^verbatim>\<open>sessionManager.js\<close>\<close>

text \<open>
  The close branch of the \<^verbatim>\<open>connection.update\<close> handler in \<^verbatim>\<open>setupEventHandlers\<close>
  (lines 151 to 162), with \<^verbatim>\<open>clearSession\<close>. The disk is the list of paths that exist;
  \<^verbatim>\<open>fs.remove\<close> deletes a directory with everything below it. The library's constant
  \<^verbatim>\<open>DisconnectReason.loggedOut\<close> and the directory \<^verbatim>\<open>SESSION_DIR\<close> are parameters.
\<close>

record session_files =
  sm_paths :: "string list"
  sm_reconnects :: "nat list"

definition below :: "string \<Rightarrow> string \<Rightarrow> bool" where
  "below dir path = (path = dir \<or> take (Suc (length dir)) path = dir @ ''/'')"

definition clearSession :: "string \<Rightarrow> session_files \<Rightarrow> session_files" where
  "clearSession dir m =
     (if dir \<in> set (sm_paths m)
      then m\<lparr>sm_paths := filter (\<lambda>p. \<not> below dir p) (sm_paths m)\<rparr>
      else m)"

definition sm_connection_closed ::
  "nat \<Rightarrow> string \<Rightarrow> nat \<Rightarrow> session_files \<Rightarrow> update \<Rightarrow> session_files" where
  "sm_connection_closed loggedOut dir t m u =
     (if connection u = Some ConnClose then
        (let shouldReconnect = (statusCode u \<noteq> Some loggedOut) in
         if shouldReconnect then m\<lparr>sm_reconnects := sm_reconnects m @ [t + 5000]\<rparr>
         else clearSession dir m)
      else m)"

section \<open>Invariants of the pairing table\<close>

text \<open>
  The keys of each table are pairwise different; every pairing entry still has, in the
  timer queue, the expiry that was queued for its bot id when it was created.
\<close>

definition keys_distinct :: "bot_state \<Rightarrow> bool" where
  "keys_distinct s =
     (distinct (map fst (pairingCodes s)) \<and> distinct (map fst (activeSockets s)))"

definition expiry_queued :: "bot_state \<Rightarrow> bool" where
  "expiry_queued s =
     (\<forall>(b, en) \<in> set (pairingCodes s).
        (createdAt en + 600000, ExpirePairing b) \<in> set (timers s))"

definition entries_for :: "string \<Rightarrow> bot_state \<Rightarrow> nat" where
  "entries_for b s = length (filter (\<lambda>kv. fst kv = b) (pairingCodes s))"

section \<open>Example inputs\<close>

text \<open>Concrete environments and request bodies, used where a statement is run.\<close>

text \<open>
  The draws 1/2 and 1/4, and the draw \<open>83/128 - 2 ^ -53\<close>, where rounding shows. The
  draw \<open>draw_for v\<close> is the least multiple of \<open>2 ^ -53\<close> that is at least
  \<open>(v - 10000000) / 90000000\<close>.
\<close>

definition half :: draw where
  "half = \<lparr>mantissa = 4503599627370496, exponent = 53\<rparr>"

definition quarter :: draw where
  "quarter = \<lparr>mantissa = 4503599627370496, exponent = 54\<rparr>"

definition near_tie :: draw where
  "near_tie = \<lparr>mantissa = 5840605766746111, exponent = 53\<rparr>"

definition draw_for :: "nat \<Rightarrow> draw" where
  "draw_for v = \<lparr>mantissa = ((v - 10000000) * 2 ^ 53 + 89999999) div 90000000, exponent = 53\<rparr>"

definition example_env :: env where
  "example_env = \<lparr>auth_load = (\<lambda>k. AuthLoaded False None),
                   random = (\<lambda>k. if k = 0 then half else quarter)\<rparr>"

definition registered_env :: env where
  "registered_env = \<lparr>auth_load = (\<lambda>k. AuthLoaded True (Some ''15551234567@s.whatsapp.net'')),
                      random = (\<lambda>k. half)\<rparr>"

definition generate_body :: "string \<Rightarrow> string \<Rightarrow> request_body" where
  "generate_body b p = \<lparr>req_botId = Some b, req_phoneNumber = Some p, req_code = None\<rparr>"

definition verify_body :: "string \<Rightarrow> string \<Rightarrow> request_body" where
  "verify_body b c = \<lparr>req_botId = Some b, req_phoneNumber = None, req_code = Some c\<rparr>"

text \<open>The state after one successful \<^verbatim>\<open>POST /pair/generate\<close> for bot \<open>b1\<close> at time 0.\<close>

definition paired_state :: bot_state where
  "paired_state =
     snd (route_generate example_env init (generate_body ''b1'' ''+1 (555) 123-4567''))"

definition paired_entry :: pairing_entry where
  "paired_entry = \<lparr>code = ''55000000'', socket = 0, phoneNumber = ''+15551234567'',
                    createdAt = 0\<rparr>"

text \<open>A logout closure, and two generate requests for the same bot five minutes apart.\<close>

definition logout :: update where
  "logout = \<lparr>connection = Some ConnClose, statusCode = Some 401\<rparr>"

definition two_generates :: "(nat \<times> event) list" where
  "two_generates =
     [(0, Generate (generate_body ''b1'' ''+1 (555) 123-4567'')),
      (300000, Generate (generate_body ''b1'' ''+1 (555) 123-4567''))]"

definition second_entry :: pairing_entry where
  "second_entry = \<lparr>code = ''32500000'', socket = 1, phoneNumber = ''+15551234567'',
                    createdAt = 300000\<rparr>"

text \<open>
  The state ten minutes after the first request, and a run with a second request at that
  time; the files of a default session.
\<close>

definition expired_state :: bot_state where
  "expired_state = advance example_env 600000 paired_state"

definition regenerated :: "(nat \<times> event) list" where
  "regenerated =
     [(0, Generate (generate_body ''b1'' ''+1 (555) 123-4567'')),
      (600000, Generate (generate_body ''b1'' ''+1 (555) 123-4567''))]"

definition default_session :: session_files where
  "default_session = \<lparr>sm_paths = [''/app/sessions'', ''/app/sessions/creds.json''],
                        sm_reconnects = []\<rparr>"

text \<open>A close that is not a logout, five minutes after the first request.\<close>

definition dropped :: update where
  "dropped = \<lparr>connection = Some ConnClose, statusCode = Some 428\<rparr>"

definition reconnected :: "(nat \<times> event) list" where
  "reconnected =
     [(0, Generate (generate_body ''b1'' ''+1 (555) 123-4567'')),
      (300000, ConnectionUpdate 0 dropped)]"

section \<open>Decimal strings and the pairing code\<close>

lemma is_digit_digit_char: "is_digit (digit_char d)"
proof -
  have "d mod 10 < length ''0123456789''" by simp
  then have "''0123456789'' ! (d mod 10) \<in> set ''0123456789''" by (rule nth_mem)
  then show ?thesis by (simp only: is_digit_def digit_char_def)
qed

lemma toString_digits: "list_all is_digit (toString n)"
proof (induction n rule: toString.induct)
  case (1 n)
  show ?case
  proof (cases "n < 10")
    case True
    then show ?thesis by (subst toString.simps) (simp add: is_digit_digit_char)
  next
    case False
    with 1 show ?thesis by (subst toString.simps) (simp add: is_digit_digit_char)
  qed
qed

lemma toString_length: "10 ^ k \<le> n \<Longrightarrow> n < 10 ^ Suc k \<Longrightarrow> length (toString n) = Suc k"
proof (induction k arbitrary: n)
  case 0
  then show ?case by (subst toString.simps) simp
next
  case (Suc k)
  have "(10::nat) \<le> 10 ^ Suc k" by simp
  then have "10 \<le> n" using Suc.prems(1) by (rule order_trans)
  then have ge: "\<not> n < 10" by simp
  have lo: "10 ^ k \<le> n div 10" using Suc.prems(1) by (simp add: less_eq_div_iff_mult_less_eq)
  have hi: "n div 10 < 10 ^ Suc k" using Suc.prems(2) by (simp add: div_less_iff_less_mult)
  from Suc.IH [OF lo hi] ge show ?case by (subst toString.simps) simp
qed

lemma bitlen_le: "n < 2 ^ b \<Longrightarrow> bitlen n \<le> b"
proof (induction n arbitrary: b rule: bitlen.induct)
  case (1 n)
  show ?case
  proof (cases "n = 0")
    case True
    then show ?thesis by (subst bitlen.simps) simp
  next
    case False
    with "1.prems" obtain b' where b: "b = Suc b'" by (cases b) auto
    with "1.prems" have "n div 2 < 2 ^ b'" by auto
    with "1.IH" [OF False] have "bitlen (n div 2) \<le> b'" by simp
    with False b show ?thesis by (subst bitlen.simps) simp
  qed
qed

lemma bitlen_gt: "2 ^ b \<le> n \<Longrightarrow> b < bitlen n"
proof (induction n arbitrary: b rule: bitlen.induct)
  case (1 n)
  have "0 < (2::nat) ^ b" by simp
  with "1.prems" have nz: "n \<noteq> 0" by linarith
  show ?case
  proof (cases b)
    case 0
    with nz show ?thesis by (subst bitlen.simps) simp
  next
    case (Suc b')
    with "1.prems" have "2 ^ b' \<le> n div 2" by auto
    with "1.IH" [OF nz] have "b' < bitlen (n div 2)" by simp
    with nz Suc show ?thesis by (subst bitlen.simps) simp
  qed
qed

lemma round_even_cases:
  obtains q r where "n = q * 2 ^ sh + r" "r < 2 ^ sh"
    "round_even n sh = (if 2 ^ sh < 2 * r \<or> (2 * r = 2 ^ sh \<and> odd q) then q + 1 else q) * 2 ^ sh"
proof
  show "n = n div 2 ^ sh * 2 ^ sh + n mod 2 ^ sh" by (rule div_mult_mod_eq [symmetric])
  show "n mod 2 ^ sh < 2 ^ sh" by simp
  show "round_even n sh =
      (if 2 ^ sh < 2 * (n mod 2 ^ sh) \<or> (2 * (n mod 2 ^ sh) = 2 ^ sh \<and> odd (n div 2 ^ sh))
       then n div 2 ^ sh + 1 else n div 2 ^ sh) * 2 ^ sh"
    by (simp add: round_even_def Let_def)
qed

lemma round_even_upper: "2 * round_even n sh \<le> 2 * n + 2 ^ sh"
proof -
  obtain q r where "n = q * 2 ^ sh + r" "r < 2 ^ sh"
    "round_even n sh = (if 2 ^ sh < 2 * r \<or> (2 * r = 2 ^ sh \<and> odd q) then q + 1 else q) * 2 ^ sh"
    by (rule round_even_cases)
  then show ?thesis by (auto simp: algebra_simps)
qed

lemma round_even_lower: "2 * n \<le> 2 * round_even n sh + 2 ^ sh"
proof -
  obtain q r where "n = q * 2 ^ sh + r" "r < 2 ^ sh"
    "round_even n sh = (if 2 ^ sh < 2 * r \<or> (2 * r = 2 ^ sh \<and> odd q) then q + 1 else q) * 2 ^ sh"
    by (rule round_even_cases)
  then show ?thesis by (auto simp: algebra_simps)
qed

lemma round_even_ge_grid: "a * 2 ^ sh \<le> n \<Longrightarrow> a * 2 ^ sh \<le> round_even n sh"
proof -
  assume "a * 2 ^ sh \<le> n"
  then have "a \<le> n div 2 ^ sh" by (simp add: less_eq_div_iff_mult_less_eq)
  then have "a * 2 ^ sh \<le> n div 2 ^ sh * 2 ^ sh" by simp
  also have "\<dots> \<le> round_even n sh" by (simp add: round_even_def Let_def)
  finally show ?thesis .
qed

lemma round_even_le_grid: "n \<le> a * 2 ^ sh \<Longrightarrow> round_even n sh \<le> a * 2 ^ sh"
proof -
  assume le: "n \<le> a * 2 ^ sh"
  show ?thesis
  proof (cases "n mod 2 ^ sh = 0")
    case True
    then have "round_even n sh = n div 2 ^ sh * 2 ^ sh" by (simp add: round_even_def Let_def)
    also have "\<dots> \<le> n" by simp
    finally show ?thesis using le by simp
  next
    case False
    have "n div 2 ^ sh < a"
    proof (rule ccontr)
      assume "\<not> n div 2 ^ sh < a"
      then have "a \<le> n div 2 ^ sh" by simp
      then have "a * 2 ^ sh \<le> n div 2 ^ sh * 2 ^ sh" by (rule mult_le_mono1)
      moreover have "n div 2 ^ sh * 2 ^ sh < n"
        using False by (metis div_mult_mod_eq less_add_same_cancel1 neq0_conv)
      ultimately show False using le by linarith
    qed
    then have "n div 2 ^ sh + 1 \<le> a" by simp
    then have "(n div 2 ^ sh + 1) * 2 ^ sh \<le> a * 2 ^ sh" by (rule mult_le_mono1)
    moreover have "round_even n sh \<le> (n div 2 ^ sh + 1) * 2 ^ sh"
      by (simp add: round_even_def Let_def)
    ultimately show ?thesis by simp
  qed
qed

lemma grid_split: "sh \<le> k \<Longrightarrow> B * 2 ^ k = (B * 2 ^ (k - sh)) * (2::nat) ^ sh"
proof -
  assume "sh \<le> k"
  then have "(2::nat) ^ k = 2 ^ (k - sh) * 2 ^ sh" by (simp add: power_add [symmetric])
  then show ?thesis by simp
qed

lemma round_even_le_pow: "sh \<le> k \<Longrightarrow> n \<le> B * 2 ^ k \<Longrightarrow> round_even n sh \<le> B * 2 ^ k"
proof -
  assume "sh \<le> k" and le: "n \<le> B * 2 ^ k"
  then have e: "B * 2 ^ k = (B * 2 ^ (k - sh)) * 2 ^ sh" by (intro grid_split)
  from le have "n \<le> (B * 2 ^ (k - sh)) * 2 ^ sh" by (simp only: e)
  then have "round_even n sh \<le> (B * 2 ^ (k - sh)) * 2 ^ sh" by (rule round_even_le_grid)
  then show ?thesis by (simp only: e)
qed

lemma round_even_ge_pow: "sh \<le> k \<Longrightarrow> B * 2 ^ k \<le> n \<Longrightarrow> B * 2 ^ k \<le> round_even n sh"
proof -
  assume "sh \<le> k" and le: "B * 2 ^ k \<le> n"
  then have e: "B * 2 ^ k = (B * 2 ^ (k - sh)) * 2 ^ sh" by (intro grid_split)
  from le have "(B * 2 ^ (k - sh)) * 2 ^ sh \<le> n" by (simp only: e)
  then have "(B * 2 ^ (k - sh)) * 2 ^ sh \<le> round_even n sh" by (rule round_even_ge_grid)
  then show ?thesis by (simp only: e)
qed

lemma round53_le_pow: "n < 2 ^ (k + 53) \<Longrightarrow> n \<le> B * 2 ^ k \<Longrightarrow> round53 n \<le> B * 2 ^ k"
proof -
  assume "n < 2 ^ (k + 53)" and le: "n \<le> B * 2 ^ k"
  then have "bitlen n \<le> k + 53" by (intro bitlen_le)
  then have "bitlen n - 53 \<le> k" by simp
  then show ?thesis unfolding round53_def using le by (rule round_even_le_pow)
qed

lemma round53_ge_pow: "n < 2 ^ (k + 53) \<Longrightarrow> B * 2 ^ k \<le> n \<Longrightarrow> B * 2 ^ k \<le> round53 n"
proof -
  assume "n < 2 ^ (k + 53)" and le: "B * 2 ^ k \<le> n"
  then have "bitlen n \<le> k + 53" by (intro bitlen_le)
  then have "bitlen n - 53 \<le> k" by simp
  then show ?thesis unfolding round53_def using le by (rule round_even_ge_pow)
qed

text \<open>The error of one rounding: half a unit in the last place.\<close>

lemma round53_upper: "n < 2 ^ (j + 54) \<Longrightarrow> round53 n \<le> n + 2 ^ j"
proof -
  assume "n < 2 ^ (j + 54)"
  then have "bitlen n \<le> j + 54" by (intro bitlen_le)
  then have sh: "bitlen n - 53 \<le> Suc j" by simp
  have "2 * round53 n \<le> 2 * n + 2 ^ (bitlen n - 53)"
    unfolding round53_def by (rule round_even_upper)
  also have "(2::nat) ^ (bitlen n - 53) \<le> 2 ^ Suc j"
    using sh by (rule power_increasing) simp
  finally show ?thesis by simp
qed

lemma draw_product_bound:
  assumes "(m::nat) < 2 ^ 53" "53 \<le> k"
  shows "m * 90000000 \<le> 90000000 * 2 ^ k" and "m * 90000000 < 2 ^ 80"
proof -
  have "(2::nat) ^ 53 \<le> 2 ^ k" using assms(2) by (rule power_increasing) simp
  with assms(1) have "m \<le> 2 ^ k" by linarith
  then show "m * 90000000 \<le> 90000000 * 2 ^ k" by simp
  from assms(1) show "m * 90000000 < 2 ^ 80" by simp
qed

lemma pow_k_bounds:
  assumes "53 \<le> k"
  shows "(2::nat) ^ 80 \<le> 2 ^ (k + 27)" and "(2::nat) ^ (k + 27) \<le> 2 ^ (k + 53)"
    and "(100000000::nat) * 2 ^ k < 2 ^ (k + 27)"
proof -
  show "(2::nat) ^ 80 \<le> 2 ^ (k + 27)" using assms by (intro power_increasing) simp_all
  show "(2::nat) ^ (k + 27) \<le> 2 ^ (k + 53)" by (intro power_increasing) simp_all
  have "(100000000::nat) * 2 ^ k < 2 ^ 27 * 2 ^ k" by simp
  then show "(100000000::nat) * 2 ^ k < 2 ^ (k + 27)" by (simp add: power_add mult.commute)
qed

text \<open>
  The number is at least the floor of the exact value, and at most the floor of the exact
  value plus \<open>2 ^ -26\<close> (in units: \<open>2 ^ (k - 26)\<close>).
\<close>

lemma pairing_number_lower:
  assumes "is_draw d"
  shows "(10000000 * 2 ^ exponent d + mantissa d * 90000000) div 2 ^ exponent d
           \<le> pairing_number d"
proof -
  define m k where "m = mantissa d" and "k = exponent d"
  have m: "m < 2 ^ 53" and k: "53 \<le> k" using assms by (simp_all add: is_draw_def m_def k_def)
  define np where "np = m * 90000000"
  define w where "w = np div 2 ^ k"
  define p where "p = round53 np"
  define s where "s = 10000000 * 2 ^ k + p"
  have np: "np \<le> 90000000 * 2 ^ k" "np < 2 ^ 80"
    using draw_product_bound [OF m k] by (simp_all add: np_def)
  have np': "np < 2 ^ (k + 53)" using np(2) pow_k_bounds(1,2) [OF k] by linarith
  have "w * 2 ^ k \<le> np" by (simp add: w_def)
  then have wp: "w * 2 ^ k \<le> p" unfolding p_def using np' by (intro round53_ge_pow)
  have "p \<le> 90000000 * 2 ^ k" unfolding p_def using np' np(1) by (intro round53_le_pow)
  then have "s \<le> 100000000 * 2 ^ k" by (simp add: s_def)
  then have s': "s < 2 ^ (k + 53)" using pow_k_bounds(2,3) [OF k] by linarith
  have "(10000000 + w) * 2 ^ k \<le> s" using wp by (simp add: s_def algebra_simps)
  then have "(10000000 + w) * 2 ^ k \<le> round53 s" using s' by (intro round53_ge_pow)
  then have "10000000 + w \<le> round53 s div 2 ^ k"
    by (simp add: less_eq_div_iff_mult_less_eq)
  moreover have "(10000000 * 2 ^ k + np) div 2 ^ k = 10000000 + w"
    by (simp add: w_def)
  ultimately show ?thesis
    by (simp add: pairing_number_def Let_def m_def k_def np_def p_def s_def)
qed

lemma pairing_number_upper:
  assumes "is_draw d"
  shows "pairing_number d
           \<le> (10000000 * 2 ^ exponent d + mantissa d * 90000000 + 2 ^ (exponent d - 26))
                div 2 ^ exponent d"
proof -
  define m k where "m = mantissa d" and "k = exponent d"
  have m: "m < 2 ^ 53" and k: "53 \<le> k" using assms by (simp_all add: is_draw_def m_def k_def)
  define np where "np = m * 90000000"
  define p where "p = round53 np"
  define s where "s = 10000000 * 2 ^ k + p"
  have np: "np \<le> 90000000 * 2 ^ k" "np < 2 ^ 80"
    using draw_product_bound [OF m k] by (simp_all add: np_def)
  have np27: "np < 2 ^ (k + 27)" using np(2) pow_k_bounds(1) [OF k] by linarith
  have np': "np < 2 ^ (k + 53)" using np27 pow_k_bounds(2) [OF k] by linarith
  have e: "k - 27 + 54 = k + 27" "Suc (k - 27) = k - 26" using k by simp_all
  have "p \<le> np + 2 ^ (k - 27)"
    unfolding p_def using np27 by (intro round53_upper) (simp add: e)
  moreover have "p \<le> 90000000 * 2 ^ k" unfolding p_def using np' np(1) by (intro round53_le_pow)
  then have "s \<le> 100000000 * 2 ^ k" by (simp add: s_def)
  then have s27: "s < 2 ^ (k + 27)" using pow_k_bounds(3) [OF k] by linarith
  have "round53 s \<le> s + 2 ^ (k - 27)"
    using s27 by (intro round53_upper) (simp add: e)
  ultimately have "round53 s \<le> 10000000 * 2 ^ k + np + 2 * 2 ^ (k - 27)"
    by (simp add: s_def)
  also have "2 * (2::nat) ^ (k - 27) = 2 ^ (k - 26)"
    using e(2) by (metis power_Suc)
  finally have "round53 s div 2 ^ k \<le> (10000000 * 2 ^ k + np + 2 ^ (k - 26)) div 2 ^ k"
    by (rule div_le_mono)
  then show ?thesis
    by (simp add: pairing_number_def Let_def m_def k_def np_def p_def s_def)
qed

lemma pairing_number_ge:
  assumes "is_draw d"
  shows "10000000 \<le> pairing_number d"
proof -
  have "10000000 * 2 ^ exponent d \<le> 10000000 * 2 ^ exponent d + mantissa d * 90000000"
    by simp
  then have "10000000 \<le> (10000000 * 2 ^ exponent d + mantissa d * 90000000) div 2 ^ exponent d"
    by (simp add: less_eq_div_iff_mult_less_eq)
  with pairing_number_lower [OF assms] show ?thesis by linarith
qed

text \<open>The largest product: just below 90000000, and rounded down.\<close>

lemma product_53:
  assumes "(m::nat) < 2 ^ 53"
  shows "round53 (m * 90000000) \<le> 6039797759999999 * 2 ^ 27"
proof (cases "m * 90000000 \<le> 6039797759999999 * 2 ^ 27")
  case True
  have "m * 90000000 < 2 ^ (27 + 53)" using assms by simp
  then show ?thesis using True by (rule round53_le_pow)
next
  case False
  define n where "n = m * 90000000"
  have lo: "6039797759999999 * 2 ^ 27 < n" using False by (simp add: n_def)
  have hi: "n + 90000000 \<le> 6039797760000000 * 2 ^ 27" using assms by (simp add: n_def)
  have "2 ^ 79 \<le> n" using lo by simp
  then have "79 < bitlen n" by (rule bitlen_gt)
  moreover have "n < 2 ^ 80" using hi by simp
  then have "bitlen n \<le> 80" by (rule bitlen_le)
  ultimately have sh: "bitlen n - 53 = 27" by simp
  obtain q r where qr: "n = q * 2 ^ 27 + r" "r < 2 ^ 27"
    "round_even n 27 = (if 2 ^ 27 < 2 * r \<or> (2 * r = 2 ^ 27 \<and> odd q) then q + 1 else q) * 2 ^ 27"
    by (rule round_even_cases)
  from qr(1,2) lo hi have q: "q = 6039797759999999" by simp
  from qr(1) q hi have "2 * r < 2 ^ 27" by simp
  with qr(3) q have "round_even n 27 = 6039797759999999 * 2 ^ 27" by simp
  then show ?thesis by (simp add: round53_def sh n_def [symmetric])
qed

lemma pairing_number_le:
  assumes "is_draw d"
  shows "pairing_number d \<le> 99999999"
proof -
  define m k where "m = mantissa d" and "k = exponent d"
  have m: "m < 2 ^ 53" and k: "53 \<le> k" using assms by (simp_all add: is_draw_def m_def k_def)
  define p where "p = round53 (m * 90000000)"
  define s where "s = 10000000 * 2 ^ k + p"
  have pn: "pairing_number d = round53 s div 2 ^ k"
    by (simp add: pairing_number_def Let_def m_def k_def p_def s_def)
  show ?thesis
  proof (cases "k = 53")
    case True
    have "p \<le> 6039797759999999 * 2 ^ 27" unfolding p_def using m by (rule product_53)
    then have s1: "s \<le> 6710886399999999 * 2 ^ 27" by (simp add: s_def True)
    then have "s < 2 ^ (27 + 53)" by simp
    then have "round53 s \<le> 6710886399999999 * 2 ^ 27" using s1 by (rule round53_le_pow)
    then have "round53 s < 100000000 * 2 ^ 53" by simp
    then have "round53 s div 2 ^ 53 < 100000000" by (simp add: div_less_iff_less_mult)
    then show ?thesis by (simp add: pn True)
  next
    case False
    with k have k54: "54 \<le> k" by simp
    have "(2::nat) ^ 54 \<le> 2 ^ k" using k54 by (rule power_increasing) simp
    then have "45000000 * (2::nat) ^ 54 \<le> 45000000 * 2 ^ k" by simp
    moreover have "m * 90000000 \<le> 45000000 * 2 ^ 54" using m by simp
    ultimately have le: "m * 90000000 \<le> 45000000 * 2 ^ k" by linarith
    have "m * 90000000 < 2 ^ 80" using m by simp
    then have "m * 90000000 < 2 ^ (k + 53)" using pow_k_bounds(1,2) [OF k] by linarith
    then have "p \<le> 45000000 * 2 ^ k" unfolding p_def using le by (rule round53_le_pow)
    then have s1: "s \<le> 55000000 * 2 ^ k" by (simp add: s_def)
    then have "s < 2 ^ (k + 53)" using pow_k_bounds(2,3) [OF k] by linarith
    then have "round53 s \<le> 55000000 * 2 ^ k" using s1 by (rule round53_le_pow)
    then have "round53 s div 2 ^ k \<le> 55000000 * 2 ^ k div 2 ^ k" by (rule div_le_mono)
    then show ?thesis by (simp add: pn)
  qed
qed

lemma digit_value_digit_char: "digit_value (digit_char d) = d mod 10"
proof -
  have "d mod 10 < 10" by simp
  then have "d mod 10 \<in> {0, 1, 2, 3, 4, 5, 6, 7, 8, 9}" by (simp; presburger)
  then show ?thesis
    unfolding digit_char_def digit_value_def by (elim insertE) simp_all
qed

lemma parseInt_snoc: "parseInt (s @ [c]) = 10 * parseInt s + digit_value c"
  by (simp add: parseInt_def)

lemma parseInt_toString: "parseInt (toString n) = n"
proof (induction n rule: toString.induct)
  case (1 n)
  show ?case
  proof (cases "n < 10")
    case True
    then show ?thesis
      by (subst toString.simps) (simp add: parseInt_def digit_value_digit_char)
  next
    case False
    with 1 show ?thesis
      by (subst toString.simps) (simp add: parseInt_snoc digit_value_digit_char)
  qed
qed

lemma round53_exact: "n < 2 ^ (j + 53) \<Longrightarrow> 2 ^ j dvd n \<Longrightarrow> round53 n = n"
proof -
  assume "n < 2 ^ (j + 53)" and d: "2 ^ j dvd n"
  then have "bitlen n \<le> j + 53" by (intro bitlen_le)
  then have "bitlen n - 53 \<le> j" by simp
  then have "(2::nat) ^ (bitlen n - 53) dvd 2 ^ j" by (rule le_imp_power_dvd)
  with d have "2 ^ (bitlen n - 53) dvd n" by (rule dvd_trans [rotated])
  then show ?thesis by (auto simp: round53_def round_even_def Let_def)
qed

lemma pairing_number_half: "pairing_number half = 55000000"
proof -
  have a: "round53 (4503599627370496 * 90000000) = 4503599627370496 * 90000000"
    by (rule round53_exact [of _ 26]) simp_all
  have b: "round53 (10000000 * 2 ^ 53 + 4503599627370496 * 90000000)
             = 10000000 * 2 ^ 53 + 4503599627370496 * 90000000"
    by (rule round53_exact [of _ 26]) simp_all
  show ?thesis
    unfolding pairing_number_def half_def Let_def by (simp only: draw.simps a b) simp
qed

lemma pairing_number_quarter: "pairing_number quarter = 32500000"
proof -
  have a: "round53 (4503599627370496 * 90000000) = 4503599627370496 * 90000000"
    by (rule round53_exact [of _ 26]) simp_all
  have b: "round53 (10000000 * 2 ^ 54 + 4503599627370496 * 90000000)
             = 10000000 * 2 ^ 54 + 4503599627370496 * 90000000"
    by (rule round53_exact [of _ 26]) simp_all
  show ?thesis
    unfolding pairing_number_def quarter_def Let_def by (simp only: draw.simps a b) simp
qed

lemma bitlen_eq: "2 ^ b \<le> n \<Longrightarrow> n < 2 ^ Suc b \<Longrightarrow> bitlen n = Suc b"
  using bitlen_gt [of b n] bitlen_le [of n "Suc b"] by simp

text \<open>
  Rounding is visible in the result: at the draw \<open>83/128 - 2 ^ -53\<close> the exact value is
  just below 68359375, the product is rounded up and the sum lands on a tie, which goes
  to the even neighbour 68359375.
\<close>

lemma pairing_number_near_tie:
  "pairing_number near_tie = 68359375 \<and>
   (10000000 * 2 ^ exponent near_tie + mantissa near_tie * 90000000) div 2 ^ exponent near_tie
     = 68359374"
proof -
  have "bitlen 525654519007149990000000 = Suc 78" by (rule bitlen_eq) simp_all
  then have a: "round53 525654519007149990000000 = 525654519007150012891136"
    by (simp add: round53_def round_even_def)
  have "bitlen 615726511554559932891136 = Suc 79" by (rule bitlen_eq) simp_all
  then have b: "round53 615726511554559932891136 = 615726511554560000000000"
    by (simp add: round53_def round_even_def)
  show ?thesis
    by (simp add: pairing_number_def near_tie_def a b)
qed

text \<open>Every number of the range is reached.\<close>

lemma draw_for_ok:
  assumes "10000000 \<le> v" "v \<le> 99999999"
  shows "is_draw (draw_for v)" and "pairing_number (draw_for v) = v"
proof -
  define a where "a = (v - 10000000) * 2 ^ 53"
  define m where "m = (a + 89999999) div 90000000"
  have d: "mantissa (draw_for v) = m" "exponent (draw_for v) = 53"
    by (simp_all add: draw_for_def m_def a_def)
  have "m * 90000000 + (a + 89999999) mod 90000000 = a + 89999999"
    unfolding m_def by (rule div_mult_mod_eq)
  moreover have "(a + 89999999) mod 90000000 < 90000000" by simp
  ultimately have lo: "a \<le> m * 90000000" and hi: "m * 90000000 < a + 90000000"
    by linarith+
  have av: "a + 10000000 * 2 ^ 53 = v * 2 ^ 53"
    using assms(1) by (simp add: a_def algebra_simps)
  have "a \<le> 89999999 * 2 ^ 53" using assms(2) by (simp add: a_def)
  with hi have "m * 90000000 < 90000000 * 2 ^ 53" by simp
  then have "m < 2 ^ 53" by simp
  then show dr: "is_draw (draw_for v)" by (simp add: is_draw_def d)
  have "v * 2 ^ 53 \<le> 10000000 * 2 ^ 53 + m * 90000000" using lo av by linarith
  then have "v \<le> (10000000 * 2 ^ 53 + m * 90000000) div 2 ^ 53"
    by (simp add: less_eq_div_iff_mult_less_eq)
  with pairing_number_lower [OF dr] have ge: "v \<le> pairing_number (draw_for v)"
    by (simp add: d)
  have "10000000 * 2 ^ 53 + m * 90000000 + 2 ^ (53 - 26) < (v + 1) * 2 ^ 53"
    using hi av by simp
  then have "(10000000 * 2 ^ 53 + m * 90000000 + 2 ^ (53 - 26)) div 2 ^ 53 < v + 1"
    by (simp add: div_less_iff_less_mult)
  with pairing_number_upper [OF dr] have "pairing_number (draw_for v) < v + 1"
    by (simp add: d)
  with ge show "pairing_number (draw_for v) = v" by simp
qed

lemma generatePairingCode_eight:
  assumes "is_draw d"
  shows "eight_digits (generatePairingCode d)"
proof -
  have "10 ^ 7 \<le> pairing_number d" "pairing_number d < 10 ^ Suc 7"
    using pairing_number_ge [OF assms] pairing_number_le [OF assms] by simp_all
  then have "length (toString (pairing_number d)) = Suc 7" by (rule toString_length)
  then show ?thesis
    by (simp add: eight_digits_def generatePairingCode_def toString_digits)
qed

section \<open>Paths and example runs\<close>

lemma sessionPath_b1: "sessionPath ''b1'' = ''sessions/session_b1''"
  by (simp add: sessionPath_def normalize_relative_def push_segment_def)

lemma sessionPath_dots: "sessionPath ''a/../b'' = ''sessions/b''"
  by (simp add: sessionPath_def normalize_relative_def push_segment_def)

lemma strip_example: "strip_non_digits ''+1 (555) 123-4567'' = ''15551234567''"
  by (simp add: strip_non_digits_def is_digit_def)

lemma example_code: "generatePairingCode half = ''55000000''"
  by (simp add: generatePairingCode_def pairing_number_half toString.simps digit_char_def)

lemma paired_state_eq:
  "paired_state =
     \<lparr>activeSockets = [(''b1'', 0)], pairingCodes = [(''b1'', paired_entry)],
      sockets = [\<lparr>sock_botId = ''b1'', sock_phoneNumber = ''+15551234567'',
                  registered = False, user = None\<rparr>],
      timers = [(600000, ExpirePairing ''b1'')], now = 0,
      dirs = [''sessions/session_b1'', ''sessions''], native_calls = [], emitted = [],
      attempts = 1\<rparr>"
  by (simp add: paired_state_def route_generate_def generate_body_def falsy_def strip_example
      createBotSessionWithPairing_def example_env_def init_def example_code sessionPath_b1
      paired_entry_def Let_def)

lemma example_code2: "generatePairingCode quarter = ''32500000''"
  by (simp add: generatePairingCode_def pairing_number_quarter toString.simps digit_char_def)

lemma run_first: "run example_env init [(0, Generate (generate_body ''b1'' ''+1 (555) 123-4567''))] = paired_state"
  by (simp add: advance_def fire_due.simps init_def paired_state_def)

lemma advance_paired: "t < 600000 \<Longrightarrow> advance example_env t paired_state = paired_state\<lparr>now := t\<rparr>"
  by (simp add: advance_def fire_due.simps paired_state_eq)

lemma run_two_generates:
  "run example_env init two_generates =
     \<lparr>activeSockets = [(''b1'', 1)], pairingCodes = [(''b1'', second_entry)],
      sockets = [\<lparr>sock_botId = ''b1'', sock_phoneNumber = ''+15551234567'',
                  registered = False, user = None\<rparr>,
                 \<lparr>sock_botId = ''b1'', sock_phoneNumber = ''+15551234567'',
                  registered = False, user = None\<rparr>],
      timers = [(600000, ExpirePairing ''b1''), (900000, ExpirePairing ''b1'')], now = 300000,
      dirs = [''sessions/session_b1'', ''sessions''], native_calls = [], emitted = [],
      attempts = 2\<rparr>"
proof -
  have "run example_env init two_generates =
      handle example_env (advance example_env 300000 paired_state)
        (Generate (generate_body ''b1'' ''+1 (555) 123-4567''))"
    using run_first by (simp add: two_generates_def)
  then show ?thesis
    by (simp add: advance_paired)
      (simp add: paired_state_eq route_generate_def generate_body_def falsy_def strip_example
        createBotSessionWithPairing_def example_env_def example_code2 sessionPath_b1
        second_entry_def Let_def)
qed

lemma expired_state_eq:
  "expired_state = paired_state\<lparr>pairingCodes := [], timers := [], now := 600000\<rparr>"
  by (simp add: expired_state_def advance_def fire_due.simps paired_state_eq)

lemma run_regenerated:
  "pairingCodes (run example_env init regenerated) =
     [(''b1'', \<lparr>code = ''32500000'', socket = 1, phoneNumber = ''+15551234567'',
               createdAt = 600000\<rparr>)] \<and>
   now (run example_env init regenerated) = 600000"
proof -
  have "run example_env init regenerated =
      handle example_env expired_state (Generate (generate_body ''b1'' ''+1 (555) 123-4567''))"
    using run_first by (simp add: regenerated_def expired_state_def)
  then show ?thesis
    by (simp add: expired_state_eq)
      (simp add: paired_state_eq route_generate_def generate_body_def falsy_def strip_example
        createBotSessionWithPairing_def example_env_def example_code2 sessionPath_b1 Let_def)
qed

lemma run_reconnected:
  "run example_env init reconnected =
     paired_state\<lparr>timers := [(600000, ExpirePairing ''b1''),
                             (305000, Reconnect ''b1'' ''+15551234567'')],
                  now := 300000\<rparr>"
proof -
  have "run example_env init reconnected =
      handle example_env (advance example_env 300000 paired_state) (ConnectionUpdate 0 dropped)"
    using run_first by (simp add: reconnected_def)
  then show ?thesis
    by (simp add: advance_paired) (simp add: paired_state_eq connection_update_def dropped_def)
qed

lemma advance_reconnected:
  "pairingCodes (advance example_env 599999 (run example_env init reconnected)) =
     [(''b1'', \<lparr>code = ''32500000'', socket = 1, phoneNumber = ''+15551234567'',
               createdAt = 305000\<rparr>)] \<and>
   pairingCodes (advance example_env 600000 (run example_env init reconnected)) = []"
  unfolding run_reconnected
  by (simp add: advance_def fire_due.simps paired_state_eq paired_entry_def
        createBotSessionWithPairing_def example_env_def example_code2 sessionPath_b1 Let_def)

section \<open>The invariants hold in every run\<close>

lemma set_update_cases: "x \<in> set (AList.update k v al) \<Longrightarrow> x = (k, v) \<or> x \<in> set al"
  by (induction al) (auto split: if_splits)

lemma set_delete_subset: "x \<in> set (AList.delete k al) \<Longrightarrow> x \<in> set al \<and> fst x \<noteq> k"
  by (auto simp: AList.delete_eq)

lemma count_key_le_one: "distinct (map fst al) \<Longrightarrow> length (filter (\<lambda>kv. fst kv = k) al) \<le> 1"
proof (induction al)
  case Nil
  then show ?case by simp
next
  case (Cons a al)
  have "filter (\<lambda>kv. fst kv = k) al = []" if "fst a = k"
  proof -
    from Cons.prems that have "k \<notin> fst ` set al" by simp
    then have "\<forall>kv \<in> set al. fst kv \<noteq> k" by blast
    then show ?thesis by (simp add: filter_empty_conv)
  qed
  with Cons show ?case by auto
qed

lemma count_key_one:
  "distinct (map fst al) \<Longrightarrow> k \<in> fst ` set al \<Longrightarrow> length (filter (\<lambda>kv. fst kv = k) al) = 1"
proof -
  assume d: "distinct (map fst al)" and m: "k \<in> fst ` set al"
  from m have "filter (\<lambda>kv. fst kv = k) al \<noteq> []" by (auto simp: filter_empty_conv)
  with count_key_le_one [OF d, of k] show ?thesis
    by (cases "filter (\<lambda>kv. fst kv = k) al") auto
qed

lemma keys_distinct_create:
  "keys_distinct s \<Longrightarrow> keys_distinct (snd (createBotSessionWithPairing e s b p))"
  by (simp add: keys_distinct_def createBotSessionWithPairing_def Let_def AList.distinct_update
      split: auth_result.splits)

lemma keys_distinct_connection_update:
  "keys_distinct s \<Longrightarrow> keys_distinct (connection_update s b p u)"
  by (simp add: keys_distinct_def connection_update_def AList.distinct_delete)

lemma keys_distinct_verify:
  "keys_distinct s \<Longrightarrow> keys_distinct (snd (verifyPairingCode s b c outcome))"
  by (simp add: keys_distinct_def verifyPairingCode_def Let_def split: option.splits)

lemma keys_distinct_route_generate:
  "keys_distinct s \<Longrightarrow> keys_distinct (snd (route_generate e s rb))"
proof -
  assume k: "keys_distinct s"
  have "snd (route_generate e s rb) = s \<or>
        snd (route_generate e s rb) =
          snd (createBotSessionWithPairing e s (the (req_botId rb))
                 (''+'' @ strip_non_digits (the (req_phoneNumber rb))))"
    by (auto simp: route_generate_def Let_def split: prod.splits sum.splits)
  with k show ?thesis by (auto simp: keys_distinct_create)
qed

lemma keys_distinct_route_verify:
  "keys_distinct s \<Longrightarrow> keys_distinct (snd (route_verify s rb outcome))"
proof -
  assume k: "keys_distinct s"
  have "snd (route_verify s rb outcome) = s \<or>
        snd (route_verify s rb outcome) =
          snd (verifyPairingCode s (the (req_botId rb)) (the (req_code rb)) outcome)"
    by (auto simp: route_verify_def split: prod.splits)
  with k show ?thesis by (auto simp: keys_distinct_verify)
qed

lemma keys_distinct_handle: "keys_distinct s \<Longrightarrow> keys_distinct (handle e s ev)"
proof (cases ev)
  case (SetUser a u)
  assume "keys_distinct s"
  then show ?thesis using SetUser by (simp add: keys_distinct_def)
qed (simp_all add: keys_distinct_route_generate keys_distinct_route_verify
      keys_distinct_connection_update)

lemma keys_distinct_fire_timer:
  "keys_distinct s \<Longrightarrow> keys_distinct (fire_timer e s a)"
proof (cases a)
  case (ExpirePairing b)
  assume "keys_distinct s"
  then show ?thesis using ExpirePairing by (simp add: keys_distinct_def AList.distinct_delete)
next
  case (Reconnect b p)
  assume "keys_distinct s"
  then show ?thesis using Reconnect by (simp add: keys_distinct_create)
qed

lemma keys_distinct_fire_due: "keys_distinct s \<Longrightarrow> keys_distinct (fire_due e t s)"
proof (induction e t s rule: fire_due.induct)
  case (1 e t s)
  show ?case
  proof (cases "earliest (timers s)")
    case None
    then show ?thesis using "1.prems" by (subst fire_due.simps) simp
  next
    case (Some x)
    show ?thesis
    proof (cases "fst x \<le> t")
      case True
      let ?s' = "s\<lparr>timers := remove1 x (timers s), now := max (now s) (fst x)\<rparr>"
      have "keys_distinct ?s'" using "1.prems" by (simp add: keys_distinct_def)
      then have "keys_distinct (fire_timer e ?s' (snd x))" by (rule keys_distinct_fire_timer)
      then have "keys_distinct (fire_due e t (fire_timer e ?s' (snd x)))"
        using "1.IH" [OF Some True] by simp
      then show ?thesis using Some True by (subst fire_due.simps) simp
    next
      case False
      then show ?thesis using Some "1.prems" by (subst fire_due.simps) simp
    qed
  qed
qed

lemma keys_distinct_advance: "keys_distinct s \<Longrightarrow> keys_distinct (advance e t s)"
proof -
  assume "keys_distinct s"
  then have "keys_distinct (fire_due e (max t (now s)) s)" by (rule keys_distinct_fire_due)
  then show ?thesis by (simp add: advance_def Let_def keys_distinct_def)
qed

lemma keys_distinct_run: "keys_distinct s \<Longrightarrow> keys_distinct (run e s evs)"
proof (induction evs arbitrary: s)
  case Nil
  then show ?case by simp
next
  case (Cons x evs)
  obtain t ev where x: "x = (t, ev)" by (cases x)
  have "keys_distinct (handle e (advance e t s) ev)"
    using Cons.prems by (simp add: keys_distinct_advance keys_distinct_handle)
  then show ?case using Cons.IH x by simp
qed

lemma keys_distinct_init: "keys_distinct init"
  by (simp add: keys_distinct_def init_def)

lemma expiry_queuedI:
  "(\<And>b en. (b, en) \<in> set (pairingCodes s) \<Longrightarrow>
      (createdAt en + 600000, ExpirePairing b) \<in> set (timers s)) \<Longrightarrow> expiry_queued s"
  by (auto simp: expiry_queued_def)

lemma expiry_queuedD:
  "expiry_queued s \<Longrightarrow> (b, en) \<in> set (pairingCodes s) \<Longrightarrow>
     (createdAt en + 600000, ExpirePairing b) \<in> set (timers s)"
  by (auto simp: expiry_queued_def)

lemma expiry_queued_create:
  assumes "expiry_queued s"
  shows "expiry_queued (snd (createBotSessionWithPairing e s b p))"
proof (cases "auth_load e (attempts s)")
  case AuthThrows
  with assms show ?thesis
    by (simp add: createBotSessionWithPairing_def expiry_queued_def)
next
  case (AuthLoaded reg me)
  show ?thesis
  proof (cases reg)
    case True
    with AuthLoaded assms show ?thesis
      by (simp add: createBotSessionWithPairing_def expiry_queued_def Let_def)
  next
    case False
    show ?thesis
    proof (rule expiry_queuedI)
      fix b' en
      assume "(b', en) \<in> set (pairingCodes (snd (createBotSessionWithPairing e s b p)))"
      then have "(b', en) \<in> set (AList.update b
          \<lparr>code = generatePairingCode (random e (attempts s)), socket = length (sockets s),
           phoneNumber = p, createdAt = now s\<rparr> (pairingCodes s))"
        using AuthLoaded False by (simp add: createBotSessionWithPairing_def Let_def)
      then have "(b', en) = (b, \<lparr>code = generatePairingCode (random e (attempts s)),
           socket = length (sockets s), phoneNumber = p, createdAt = now s\<rparr>) \<or>
           (b', en) \<in> set (pairingCodes s)"
        by (rule set_update_cases)
      then show "(createdAt en + 600000, ExpirePairing b')
                   \<in> set (timers (snd (createBotSessionWithPairing e s b p)))"
        using AuthLoaded False expiry_queuedD [OF assms]
        by (auto simp: createBotSessionWithPairing_def Let_def)
    qed
  qed
qed

lemma expiry_queued_connection_update:
  assumes "expiry_queued s"
  shows "expiry_queued (connection_update s b p u)"
  using assms
  by (auto simp: expiry_queued_def connection_update_def dest: set_delete_subset)

lemma expiry_queued_verify:
  "expiry_queued s \<Longrightarrow> expiry_queued (snd (verifyPairingCode s b c outcome))"
  by (simp add: expiry_queued_def verifyPairingCode_def Let_def split: option.splits)

lemma expiry_queued_handle: "expiry_queued s \<Longrightarrow> expiry_queued (handle e s ev)"
proof (cases ev)
  case (Generate rb)
  assume q: "expiry_queued s"
  have "snd (route_generate e s rb) = s \<or>
        snd (route_generate e s rb) =
          snd (createBotSessionWithPairing e s (the (req_botId rb))
                 (''+'' @ strip_non_digits (the (req_phoneNumber rb))))"
    by (auto simp: route_generate_def Let_def split: prod.splits sum.splits)
  with q Generate show ?thesis by (auto simp: expiry_queued_create)
next
  case (Verify rb outcome)
  assume q: "expiry_queued s"
  have "snd (route_verify s rb outcome) = s \<or>
        snd (route_verify s rb outcome) =
          snd (verifyPairingCode s (the (req_botId rb)) (the (req_code rb)) outcome)"
    by (auto simp: route_verify_def split: prod.splits)
  with q Verify show ?thesis by (auto simp: expiry_queued_verify)
next
  case (ConnectionUpdate a u)
  assume "expiry_queued s"
  then show ?thesis using ConnectionUpdate by (simp add: expiry_queued_connection_update)
next
  case (SetUser a u)
  assume "expiry_queued s"
  then show ?thesis using SetUser by (simp add: expiry_queued_def)
qed

text \<open>Running the callback \<open>x\<close>, taken off the queue.\<close>

lemma expiry_queued_fire:
  assumes "expiry_queued s"
  shows "expiry_queued
           (fire_timer e (s\<lparr>timers := remove1 x (timers s), now := n\<rparr>) (snd x))"
proof (cases "snd x")
  case (ExpirePairing b)
  have "expiry_queued (s\<lparr>timers := remove1 x (timers s), now := n,
                         pairingCodes := AList.delete b (pairingCodes s)\<rparr>)"
  proof (rule expiry_queuedI)
    fix b' en
    assume "(b', en) \<in> set (pairingCodes (s\<lparr>timers := remove1 x (timers s), now := n,
                         pairingCodes := AList.delete b (pairingCodes s)\<rparr>))"
    then have m: "(b', en) \<in> set (pairingCodes s)" and ne: "b' \<noteq> b"
      using set_delete_subset [of "(b', en)" b "pairingCodes s"] by simp_all
    from ne ExpirePairing have "(createdAt en + 600000, ExpirePairing b') \<noteq> x" by auto
    then show "(createdAt en + 600000, ExpirePairing b')
                 \<in> set (timers (s\<lparr>timers := remove1 x (timers s), now := n,
                         pairingCodes := AList.delete b (pairingCodes s)\<rparr>))"
      using expiry_queuedD [OF assms m] by simp
  qed
  moreover have "AList.delete b (pairingCodes s) = pairingCodes s"
    if "b \<notin> fst ` set (pairingCodes s)"
    using that by simp
  ultimately show ?thesis using ExpirePairing by auto
next
  case (Reconnect b p)
  have "expiry_queued (s\<lparr>timers := remove1 x (timers s), now := n\<rparr>)"
  proof (rule expiry_queuedI)
    fix b' en
    assume "(b', en) \<in> set (pairingCodes (s\<lparr>timers := remove1 x (timers s), now := n\<rparr>))"
    then have m: "(b', en) \<in> set (pairingCodes s)" by simp
    from Reconnect have "(createdAt en + 600000, ExpirePairing b') \<noteq> x" by auto
    then show "(createdAt en + 600000, ExpirePairing b')
                 \<in> set (timers (s\<lparr>timers := remove1 x (timers s), now := n\<rparr>))"
      using expiry_queuedD [OF assms m] by simp
  qed
  then show ?thesis using Reconnect by (simp add: expiry_queued_create)
qed

lemma expiry_queued_fire_due: "expiry_queued s \<Longrightarrow> expiry_queued (fire_due e t s)"
proof (induction e t s rule: fire_due.induct)
  case (1 e t s)
  show ?case
  proof (cases "earliest (timers s)")
    case None
    then show ?thesis using "1.prems" by (subst fire_due.simps) simp
  next
    case (Some x)
    show ?thesis
    proof (cases "fst x \<le> t")
      case True
      let ?s' = "s\<lparr>timers := remove1 x (timers s), now := max (now s) (fst x)\<rparr>"
      have "expiry_queued (fire_timer e ?s' (snd x))"
        using "1.prems" by (rule expiry_queued_fire)
      then have "expiry_queued (fire_due e t (fire_timer e ?s' (snd x)))"
        using "1.IH" [OF Some True] by simp
      then show ?thesis using Some True by (subst fire_due.simps) simp
    next
      case False
      then show ?thesis using Some "1.prems" by (subst fire_due.simps) simp
    qed
  qed
qed

text \<open>After the pass, nothing that was due is left in the queue.\<close>

lemma fire_due_none_left: "x \<in> set (timers (fire_due e t s)) \<Longrightarrow> t < fst x"
proof (induction e t s rule: fire_due.induct)
  case (1 e t s)
  show ?case
  proof (cases "earliest (timers s)")
    case None
    then have "timers (fire_due e t s) = []"
      by (subst fire_due.simps) (simp add: earliest_None)
    with "1.prems" show ?thesis by simp
  next
    case (Some y)
    show ?thesis
    proof (cases "fst y \<le> t")
      case True
      let ?s' = "s\<lparr>timers := remove1 y (timers s), now := max (now s) (fst y)\<rparr>"
      have "fire_due e t s = fire_due e t (fire_timer e ?s' (snd y))"
        using Some True by (subst fire_due.simps) simp
      with "1.prems" "1.IH" [OF Some True] show ?thesis by simp
    next
      case False
      then have "fire_due e t s = s" using Some by (subst fire_due.simps) simp
      with "1.prems" have "x \<in> set (timers s)" by simp
      with Some have "fst y \<le> fst x" by (rule earliest_least)
      with False show ?thesis by simp
    qed
  qed
qed

lemma expiry_queued_advance: "expiry_queued s \<Longrightarrow> expiry_queued (advance e t s)"
proof -
  assume "expiry_queued s"
  then have "expiry_queued (fire_due e (max t (now s)) s)" by (rule expiry_queued_fire_due)
  then show ?thesis by (simp add: advance_def Let_def expiry_queued_def)
qed

lemma expiry_queued_run: "expiry_queued s \<Longrightarrow> expiry_queued (run e s evs)"
proof (induction evs arbitrary: s)
  case Nil
  then show ?case by simp
next
  case (Cons x evs)
  obtain t ev where x: "x = (t, ev)" by (cases x)
  have "expiry_queued (handle e (advance e t s) ev)"
    using Cons.prems by (simp add: expiry_queued_advance expiry_queued_handle)
  then show ?case using Cons.IH x by simp
qed

lemma expiry_queued_init: "expiry_queued init"
  by (simp add: expiry_queued_def init_def)

lemma advance_timers_later: "x \<in> set (timers (advance e t s)) \<Longrightarrow> now (advance e t s) < fst x"
  using fire_due_none_left [of x e "max t (now s)" s]
  by (simp add: advance_def Let_def)

lemma entry_younger:
  assumes "(b, en) \<in> set (pairingCodes (advance e t (run e init evs)))"
  shows "now (advance e t (run e init evs)) < createdAt en + 600000"
proof -
  have "expiry_queued (advance e t (run e init evs))"
    by (simp add: expiry_queued_advance expiry_queued_run expiry_queued_init)
  then have "(createdAt en + 600000, ExpirePairing b) \<in> set (timers (advance e t (run e init evs)))"
    using assms by (rule expiry_queuedD)
  then show ?thesis using advance_timers_later by fastforce
qed

section \<open>Phone numbers\<close>

text \<open>
  C9. Stripping the non-digits of a phone number is idempotent. The number
  \<open>+1 (555) 123-4567\<close> becomes \<open>15551234567\<close>, which has 11 digits and is not shorter than
  10. A request whose phone number keeps fewer than 10 digits is answered 400, and the
  service state is left as it was.
\<close>

theorem phone_normalization:
  "strip_non_digits (strip_non_digits p) = strip_non_digits p \<and>
   strip_non_digits ''+1 (555) 123-4567'' = ''15551234567'' \<and>
   length (strip_non_digits ''+1 (555) 123-4567'') = 11 \<and>
   \<not> length (strip_non_digits ''+1 (555) 123-4567'') < 10 \<and>
   (req_phoneNumber b = Some p \<and> length (strip_non_digits p) < 10 \<longrightarrow>
      http_status (fst (route_generate e s b)) = 400 \<and> snd (route_generate e s b) = s)"
proof -
  have idem: "strip_non_digits (strip_non_digits p) = strip_non_digits p"
    by (simp add: strip_non_digits_def)
  have rej: "http_status (fst (route_generate e s b)) = 400 \<and> snd (route_generate e s b) = s"
    if "req_phoneNumber b = Some p" "length (strip_non_digits p) < 10"
    using that by (simp add: route_generate_def)
  show ?thesis using idem rej by (simp add: strip_example)
qed

theorem phone_normalization_witness:
  "req_phoneNumber (generate_body ''b1'' ''+1 555 0100'') = Some ''+1 555 0100'' \<and>
   length (strip_non_digits ''+1 555 0100'') < 10 \<and>
   http_status (fst (route_generate example_env init (generate_body ''b1'' ''+1 555 0100'')))
     = 400 \<and>
   snd (route_generate example_env init (generate_body ''b1'' ''+1 555 0100'')) = init"
proof -
  have h: "req_phoneNumber (generate_body ''b1'' ''+1 555 0100'') = Some ''+1 555 0100'' \<and>
           length (strip_non_digits ''+1 555 0100'') < 10"
    by (simp add: generate_body_def strip_non_digits_def is_digit_def)
  show ?thesis
    using h phone_normalization [of "''+1 555 0100''" "generate_body ''b1'' ''+1 555 0100''"
        example_env init]
    by simp
qed

section \<open>Status of one bot\<close>

text \<open>
  C10. \<^verbatim>\<open>getBotStatus\<close> reports \<open>connected\<close>, and \<open>online\<close> true, exactly when the
  registry holds a handle for the bot id. Whether the handshake has completed plays no
  part: right after a session is created from credentials that are not registered and
  carry no user, the bot is reported connected and online, with no user.
\<close>

theorem status_follows_registry:
  "(status (getBotStatus s b) = connected \<longleftrightarrow> b \<in> fst ` set (activeSockets s)) \<and>
   (online (getBotStatus s b) \<longleftrightarrow> b \<in> fst ` set (activeSockets s)) \<and>
   (auth_load e (attempts s) = AuthLoaded False None \<longrightarrow>
      getBotStatus (snd (createBotSessionWithPairing e s b p)) b =
        \<lparr>status = connected, online = True, status_user = None, lastSeen = now s\<rparr>)"
proof -
  have m: "map_of (activeSockets s) b \<noteq> None \<longleftrightarrow> b \<in> fst ` set (activeSockets s)"
    by (simp add: map_of_eq_None_iff)
  have a: "status (getBotStatus s b) = connected \<longleftrightarrow> b \<in> fst ` set (activeSockets s)"
    using m by (simp add: getBotStatus_def Let_def)
  have b: "online (getBotStatus s b) \<longleftrightarrow> b \<in> fst ` set (activeSockets s)"
    using m by (simp add: getBotStatus_def Let_def)
  have c: "getBotStatus (snd (createBotSessionWithPairing e s b p)) b =
        \<lparr>status = connected, online = True, status_user = None, lastSeen = now s\<rparr>"
    if "auth_load e (attempts s) = AuthLoaded False None"
    using that
    by (simp add: getBotStatus_def createBotSessionWithPairing_def Let_def AList.update_conv')
  show ?thesis using a b c by blast
qed

theorem status_follows_registry_witness:
  "auth_load example_env (attempts init) = AuthLoaded False None \<and>
   getBotStatus (snd (createBotSessionWithPairing example_env init ''b1'' ''+15551234567''))
     ''b1'' = \<lparr>status = connected, online = True, status_user = None, lastSeen = 0\<rparr>"
proof -
  have h: "auth_load example_env (attempts init) = AuthLoaded False None"
    by (simp add: example_env_def)
  show ?thesis
    using h status_follows_registry [of init "''b1''" example_env "''+15551234567''"]
    by (simp add: init_def)
qed

text \<open>
  C3. The route \<^verbatim>\<open>GET /pair/status/:botId\<close> does not answer 200: the name
  \<^verbatim>\<open>getBotStatus\<close> is not among the names the route module binds, so every request is
  answered 500 with the message of the \<^verbatim>\<open>catch\<close> block. The bot service exports
  the function; the import list of the route module leaves it out.
\<close>

theorem status_route_fails:
  "route_status s botId =
     \<lparr>http_status = 500, body = Failure ''Failed to get bot status''\<rparr> \<and>
   ''getBotStatus'' \<in> set botService_exports \<and>
   ''getBotStatus'' \<notin> set pair_imports"
  by (simp add: route_status_def pair_imports_def botService_exports_def)

section \<open>Verification\<close>

text \<open>
  C7. When the bot has a pairing entry and the submitted code differs from the stored
  one, \<^verbatim>\<open>verifyPairingCode\<close> fails with \<open>Invalid pairing code\<close> and the whole state (the
  pairing table and the registry with it) is unchanged; through the route the answer is
  400 with that message.
\<close>

theorem mismatch_changes_nothing:
  "map_of (pairingCodes s) b = Some pd \<Longrightarrow> code pd \<noteq> c \<Longrightarrow>
   verifyPairingCode s b c outcome =
     (\<lparr>success = False, message = ''Invalid pairing code''\<rparr>, s) \<and>
   (b \<noteq> [] \<and> eight_digits c \<longrightarrow>
      route_verify s (verify_body b c) outcome =
        (\<lparr>http_status = 400, body = Failure ''Invalid pairing code''\<rparr>, s))"
  by (simp add: verifyPairingCode_def route_verify_def verify_body_def falsy_def
      eight_digits_def)

theorem mismatch_changes_nothing_witness:
  "map_of (pairingCodes paired_state) ''b1'' = Some paired_entry \<and>
   code paired_entry \<noteq> ''12345678'' \<and>
   verifyPairingCode paired_state ''b1'' ''12345678'' None =
     (\<lparr>success = False, message = ''Invalid pairing code''\<rparr>, paired_state) \<and>
   route_verify paired_state (verify_body ''b1'' ''12345678'') None =
     (\<lparr>http_status = 400, body = Failure ''Invalid pairing code''\<rparr>, paired_state)"
proof -
  have h1: "map_of (pairingCodes paired_state) ''b1'' = Some paired_entry"
    by (simp add: paired_state_eq)
  have h2: "code paired_entry \<noteq> ''12345678''"
    by (simp add: paired_entry_def)
  have h3: "''b1'' \<noteq> [] \<and> eight_digits ''12345678''"
    by (simp add: eight_digits_def is_digit_def)
  show ?thesis
    using h1 h2 h3 mismatch_changes_nothing [OF h1 h2, of None]
    by simp
qed

text \<open>
  C1, as the code has it. With a pairing entry whose code is the submitted one,
  \<^verbatim>\<open>verifyPairingCode\<close> calls the native pairing request and, when that resolves,
  succeeds; it changes nothing but the record of native calls, so the entry stays and a
  second verification with the same code calls the native request again and succeeds
  again. The entry goes when the bot's connection opens; after that, verification answers
  \<open>Pairing code expired or invalid\<close>, 400 through the route.
\<close>

theorem verification_keeps_entry:
  assumes "map_of (pairingCodes s) b = Some pd" "code pd = c"
  shows "verifyPairingCode s b c None =
           (\<lparr>success = True, message = ''Pairing successful''\<rparr>,
            s\<lparr>native_calls := native_calls s @ [(socket pd, replace_plus (phoneNumber pd))]\<rparr>) \<and>
         verifyPairingCode (snd (verifyPairingCode s b c None)) b c None =
           (\<lparr>success = True, message = ''Pairing successful''\<rparr>,
            s\<lparr>native_calls := native_calls s @
               [(socket pd, replace_plus (phoneNumber pd)),
                (socket pd, replace_plus (phoneNumber pd))]\<rparr>) \<and>
         fst (verifyPairingCode
                (connection_update s b p \<lparr>connection = Some ConnOpen, statusCode = sc\<rparr>)
                b c outcome) =
           \<lparr>success = False, message = ''Pairing code expired or invalid''\<rparr> \<and>
         (b \<noteq> [] \<and> eight_digits c \<longrightarrow>
            fst (route_verify
                  (connection_update s b p \<lparr>connection = Some ConnOpen, statusCode = sc\<rparr>)
                  (verify_body b c) outcome) =
              \<lparr>http_status = 400, body = Failure ''Pairing code expired or invalid''\<rparr>)"
  using assms
  by (auto simp: verifyPairingCode_def connection_update_def AList.delete_conv'
      route_verify_def verify_body_def falsy_def eight_digits_def)

theorem verification_keeps_entry_witness:
  "map_of (pairingCodes paired_state) ''b1'' = Some paired_entry \<and>
   code paired_entry = ''55000000'' \<and>
   verifyPairingCode paired_state ''b1'' ''55000000'' None =
     (\<lparr>success = True, message = ''Pairing successful''\<rparr>,
      paired_state\<lparr>native_calls := [(0, ''15551234567'')]\<rparr>) \<and>
   ''b1'' \<noteq> [] \<and> eight_digits ''55000000'' \<and>
   fst (route_verify
         (connection_update paired_state ''b1'' ''+15551234567''
            \<lparr>connection = Some ConnOpen, statusCode = None\<rparr>)
         (verify_body ''b1'' ''55000000'') None) =
     \<lparr>http_status = 400, body = Failure ''Pairing code expired or invalid''\<rparr>"
proof -
  have h1: "map_of (pairingCodes paired_state) ''b1'' = Some paired_entry"
    by (simp add: paired_state_eq)
  have h2: "code paired_entry = ''55000000''"
    by (simp add: paired_entry_def)
  have h3: "''b1'' \<noteq> [] \<and> eight_digits ''55000000''"
    by (simp add: eight_digits_def is_digit_def)
  have n: "native_calls paired_state = []" "socket paired_entry = 0"
    "replace_plus (phoneNumber paired_entry) = ''15551234567''"
    by (simp_all add: paired_state_eq paired_entry_def)
  show ?thesis
    using h1 h2 h3 verification_keeps_entry [OF h1 h2, of "''+15551234567''" None None]
    by (simp add: n)
qed

text \<open>
  C1 as stated fails: after a successful verification for \<open>b1\<close>, the same code succeeds
  a second time (200 through the route) and the native request has been made twice.
\<close>

theorem second_verification_counterexample:
  "fst (verifyPairingCode (snd (verifyPairingCode paired_state ''b1'' ''55000000'' None))
          ''b1'' ''55000000'' None) = \<lparr>success = True, message = ''Pairing successful''\<rparr> \<and>
   fst (route_verify (snd (verifyPairingCode paired_state ''b1'' ''55000000'' None))
          (verify_body ''b1'' ''55000000'') None) =
     \<lparr>http_status = 200, body = Verified ''Bot connected successfully!''\<rparr> \<and>
   native_calls (snd (verifyPairingCode (snd (verifyPairingCode paired_state ''b1'' ''55000000'' None))
          ''b1'' ''55000000'' None)) = [(0, ''15551234567''), (0, ''15551234567'')]"
  by (simp add: verifyPairingCode_def paired_state_eq paired_entry_def route_verify_def
      verify_body_def falsy_def eight_digits_def is_digit_def)

section \<open>Generating a pairing code\<close>

text \<open>
  C4, as the code has it. For a body with a non-empty bot id and a phone number keeping at
  least 10 digits, when session creation does not throw: the answer is 200 with
  \<open>expiresIn\<close> \<open>10 minutes\<close>, and its \<open>pairingCode\<close> is \<^verbatim>\<open>null\<close> when the loaded credentials
  are registered, and otherwise the generated code \<open>c\<close>. For the draw \<open>r\<close> of
  \<^verbatim>\<open>Math.random()\<close>, any binary64 number in \<open>[0, 1)\<close>, the code is 8 digits long and the
  number it denotes lies from 10000000 to 99999999. It is uniform in the draw: the number
  is \<open>floor (10000000 + 90000000 * r)\<close>, or the next integer when the exact value is
  within \<open>2 ^ -26\<close> below it, so each code belongs to an interval of draws of width
  \<open>1 / 90000000\<close>; and every number from 10000000 to 99999999 is the code of some draw.
\<close>

theorem generate_response:
  assumes "req_botId b = Some botId" "botId \<noteq> []" "req_phoneNumber b = Some p"
    and "10 \<le> length (strip_non_digits p)"
    and "auth_load e (attempts s) = AuthLoaded reg me"
    and "r = random e (attempts s)" "is_draw r"
    and "c = generatePairingCode r"
  shows "fst (route_generate e s b) =
           \<lparr>http_status = 200,
            body = Generated botId (if reg then None else Some c)
              ''Use this 8-digit code in WhatsApp > Linked Devices > Link a Device''
              ''10 minutes''\<rparr> \<and>
         eight_digits c \<and>
         10000000 \<le> parseInt c \<and> parseInt c \<le> 99999999 \<and>
         (10000000 * 2 ^ exponent r + mantissa r * 90000000) div 2 ^ exponent r
           \<le> parseInt c \<and>
         parseInt c
           \<le> (10000000 * 2 ^ exponent r + mantissa r * 90000000 + 2 ^ (exponent r - 26))
                div 2 ^ exponent r \<and>
         (\<forall>v. 10000000 \<le> v \<and> v \<le> 99999999 \<longrightarrow>
            is_draw (draw_for v) \<and> parseInt (generatePairingCode (draw_for v)) = v)"
proof -
  from assms(4) have "p \<noteq> []" by (auto simp: strip_non_digits_def)
  with assms(1-6,8) have resp: "fst (route_generate e s b) =
           \<lparr>http_status = 200,
            body = Generated botId (if reg then None else Some c)
              ''Use this 8-digit code in WhatsApp > Linked Devices > Link a Device''
              ''10 minutes''\<rparr>"
    by (simp add: route_generate_def falsy_def createBotSessionWithPairing_def Let_def)
  have num: "parseInt c = pairing_number r"
    by (simp add: assms(8) generatePairingCode_def parseInt_toString)
  have eight: "eight_digits c"
    unfolding assms(8) using assms(7) by (rule generatePairingCode_eight)
  have onto: "is_draw (draw_for v) \<and> parseInt (generatePairingCode (draw_for v)) = v"
    if "10000000 \<le> v \<and> v \<le> 99999999" for v
    using that draw_for_ok [of v] by (simp add: generatePairingCode_def parseInt_toString)
  show ?thesis
    using resp eight onto pairing_number_ge [OF assms(7)] pairing_number_le [OF assms(7)]
      pairing_number_lower [OF assms(7)] pairing_number_upper [OF assms(7)]
    by (simp add: num)
qed

theorem generate_response_witness:
  "req_botId (generate_body ''b1'' ''+1 (555) 123-4567'') = Some ''b1'' \<and> ''b1'' \<noteq> [] \<and>
   req_phoneNumber (generate_body ''b1'' ''+1 (555) 123-4567'') = Some ''+1 (555) 123-4567'' \<and>
   10 \<le> length (strip_non_digits ''+1 (555) 123-4567'') \<and>
   auth_load example_env (attempts init) = AuthLoaded False None \<and>
   half = random example_env (attempts init) \<and> is_draw half \<and>
   ''55000000'' = generatePairingCode half \<and>
   fst (route_generate example_env init (generate_body ''b1'' ''+1 (555) 123-4567'')) =
     \<lparr>http_status = 200,
      body = Generated ''b1'' (Some ''55000000'')
        ''Use this 8-digit code in WhatsApp > Linked Devices > Link a Device'' ''10 minutes''\<rparr> \<and>
   eight_digits ''55000000'' \<and> parseInt ''55000000'' = 55000000 \<and>
   is_draw (draw_for 68359375) \<and> parseInt (generatePairingCode (draw_for 68359375)) = 68359375"
proof -
  have h1: "req_botId (generate_body ''b1'' ''+1 (555) 123-4567'') = Some ''b1''"
    and h2: "''b1'' \<noteq> []"
    and h3: "req_phoneNumber (generate_body ''b1'' ''+1 (555) 123-4567'') = Some ''+1 (555) 123-4567''"
    and h4: "10 \<le> length (strip_non_digits ''+1 (555) 123-4567'')"
    and h5: "auth_load example_env (attempts init) = AuthLoaded False None"
    and h6: "half = random example_env (attempts init)"
    and h7: "is_draw half"
    by (simp_all add: generate_body_def strip_example example_env_def init_def is_draw_def
        half_def)
  have h8: "''55000000'' = generatePairingCode half"
    by (simp add: example_code)
  note t = generate_response [OF h1 h2 h3 h4 h5 h6 h7 h8]
  have num: "parseInt ''55000000'' = 55000000"
    by (simp add: parseInt_def digit_value_def)
  have onto: "is_draw (draw_for 68359375) \<and>
    parseInt (generatePairingCode (draw_for 68359375)) = 68359375"
    using t by simp
  show ?thesis
    using h1 h2 h3 h4 h5 h6 h7 h8 t num onto by simp
qed

text \<open>
  C4 as stated fails: with registered credentials the creation does not throw, and the
  answer carries no pairing code.
\<close>

theorem generate_registered_counterexample:
  "fst (route_generate registered_env init (generate_body ''b1'' ''+1 (555) 123-4567'')) =
     \<lparr>http_status = 200,
      body = Generated ''b1'' None
        ''Use this 8-digit code in WhatsApp > Linked Devices > Link a Device'' ''10 minutes''\<rparr>"
  by (simp add: route_generate_def generate_body_def falsy_def strip_example
      createBotSessionWithPairing_def registered_env_def init_def Let_def)

section \<open>Closure after logout\<close>

text \<open>
  C2 at a concrete run: bot \<open>b1\<close> gets a session at time 0 and its socket reports a close
  with status 401 at time 1000. The pairing entry and the registry entry are gone, no
  reconnect is queued and the status reads disconnected, but the directory of the
  credential bundle is still there: the close handler of the bot service never touches
  the disk. The handler of the default session, on the same update, removes its session
  directory.
\<close>

theorem logout_keeps_bundle:
  "map_of (pairingCodes (run example_env init
      [(0, Generate (generate_body ''b1'' ''+1 (555) 123-4567'')),
       (1000, ConnectionUpdate 0 logout)])) ''b1'' = None \<and>
   map_of (activeSockets (run example_env init
      [(0, Generate (generate_body ''b1'' ''+1 (555) 123-4567'')),
       (1000, ConnectionUpdate 0 logout)])) ''b1'' = None \<and>
   timers (run example_env init
      [(0, Generate (generate_body ''b1'' ''+1 (555) 123-4567'')),
       (1000, ConnectionUpdate 0 logout)]) = [(600000, ExpirePairing ''b1'')] \<and>
   status (getBotStatus (run example_env init
      [(0, Generate (generate_body ''b1'' ''+1 (555) 123-4567'')),
       (1000, ConnectionUpdate 0 logout)]) ''b1'') = disconnected \<and>
   dirs (run example_env init
      [(0, Generate (generate_body ''b1'' ''+1 (555) 123-4567'')),
       (1000, ConnectionUpdate 0 logout)]) = [''sessions/session_b1'', ''sessions''] \<and>
   dirs (connection_update s b p u) = dirs s \<and>
   sm_paths (sm_connection_closed 401 ''/app/sessions'' 1000 default_session logout) = []"
proof -
  have d: "dirs (connection_update s b p u) = dirs s"
    by (simp add: connection_update_def Let_def)
  have m: "sm_paths (sm_connection_closed 401 ''/app/sessions'' 1000 default_session logout) = []"
    by (simp add: sm_connection_closed_def clearSession_def default_session_def logout_def
        below_def)
  have "run example_env init
      [(0, Generate (generate_body ''b1'' ''+1 (555) 123-4567'')),
       (1000, ConnectionUpdate 0 logout)] =
      handle example_env (advance example_env 1000 paired_state) (ConnectionUpdate 0 logout)"
    using run_first by simp
  then show ?thesis
    using d m
    by (simp add: advance_paired)
      (simp add: paired_state_eq connection_update_def logout_def getBotStatus_def)
qed

section \<open>Expiry timers\<close>

text \<open>
  C5 at a concrete run: two generate requests for \<open>b1\<close>, at time 0 and at time 300000.
  At time 600000 the timer of the first entry runs and deletes the second entry, which
  is only five minutes old; verification with the second code then finds nothing. The
  same when the second entry comes from a reconnect: the socket closes at time 300000
  with a status other than 401, the reconnect of time 305000 creates the second entry,
  and the first timer deletes it at time 600000.
\<close>

theorem stale_expiry_deletes_newer_entry:
  "map_of (pairingCodes (run example_env init two_generates)) ''b1'' = Some second_entry \<and>
   createdAt second_entry = 300000 \<and>
   now (advance example_env 600000 (run example_env init two_generates)) = 600000 \<and>
   pairingCodes (advance example_env 600000 (run example_env init two_generates)) = [] \<and>
   fst (verifyPairingCode (advance example_env 600000 (run example_env init two_generates))
          ''b1'' ''32500000'' None) =
     \<lparr>success = False, message = ''Pairing code expired or invalid''\<rparr> \<and>
   pairingCodes (advance example_env 599999 (run example_env init reconnected)) =
     [(''b1'', \<lparr>code = ''32500000'', socket = 1, phoneNumber = ''+15551234567'',
               createdAt = 305000\<rparr>)] \<and>
   pairingCodes (advance example_env 600000 (run example_env init reconnected)) = []"
  using advance_reconnected
  by (simp add: run_two_generates advance_def fire_due.simps second_entry_def
      verifyPairingCode_def AList.delete_eq)

text \<open>
  C8, as the code has it. In the state at any time of any run (the callbacks due by then
  have run), let \<open>T\<close> be at least ten minutes back. Then the pairing table holds no entry
  for the bot id that was created at \<open>T\<close> or before; and unless it holds an entry created
  after \<open>T\<close>, verification answers \<open>Pairing code expired or invalid\<close>.
\<close>

theorem expired_entry_unreachable:
  assumes "s = advance e t (run e init evs)" and "T + 600000 \<le> now s"
  shows "(\<forall>en. (b, en) \<in> set (pairingCodes s) \<longrightarrow> T < createdAt en) \<and>
         (\<not> (\<exists>en. (b, en) \<in> set (pairingCodes s) \<and> T < createdAt en) \<longrightarrow>
            verifyPairingCode s b c outcome =
              (\<lparr>success = False, message = ''Pairing code expired or invalid''\<rparr>, s))"
proof -
  have young: "T < createdAt en" if "(b, en) \<in> set (pairingCodes s)" for en
    using entry_younger [of b en e t evs] that assms by simp
  have "verifyPairingCode s b c outcome =
              (\<lparr>success = False, message = ''Pairing code expired or invalid''\<rparr>, s)"
    if "\<not> (\<exists>en. (b, en) \<in> set (pairingCodes s) \<and> T < createdAt en)"
  proof -
    from that young have "\<forall>en. (b, en) \<notin> set (pairingCodes s)" by blast
    then have "b \<notin> fst ` set (pairingCodes s)" by force
    then have "map_of (pairingCodes s) b = None" by (simp add: map_of_eq_None_iff)
    then show ?thesis by (simp add: verifyPairingCode_def)
  qed
  with young show ?thesis by blast
qed

theorem expired_entry_unreachable_witness:
  "expired_state =
     advance example_env 600000
       (run example_env init [(0, Generate (generate_body ''b1'' ''+1 (555) 123-4567''))]) \<and>
   0 + 600000 \<le> now expired_state \<and>
   pairingCodes expired_state = [] \<and>
   verifyPairingCode expired_state ''b1'' ''55000000'' None =
     (\<lparr>success = False, message = ''Pairing code expired or invalid''\<rparr>, expired_state)"
proof -
  have h1: "expired_state =
     advance example_env 600000
       (run example_env init [(0, Generate (generate_body ''b1'' ''+1 (555) 123-4567''))])"
    unfolding run_first by (simp add: expired_state_def)
  have h2: "0 + 600000 \<le> now expired_state"
    by (simp add: expired_state_eq)
  have h3: "pairingCodes expired_state = []"
    by (simp add: expired_state_eq)
  note r = expired_entry_unreachable [OF h1 h2, of "''b1''" "''55000000''" None]
  show ?thesis
  proof (intro conjI)
    show "expired_state =
      advance example_env 600000
        (run example_env init [(0, Generate (generate_body ''b1'' ''+1 (555) 123-4567''))])"
      by (rule h1)
    show "0 + 600000 \<le> now expired_state" by (rule h2)
    show "pairingCodes expired_state = []" by (rule h3)
    show "verifyPairingCode expired_state ''b1'' ''55000000'' None =
      (\<lparr>success = False, message = ''Pairing code expired or invalid''\<rparr>, expired_state)"
      using r by (simp add: h3)
  qed
qed

text \<open>
  C8 as stated fails: an entry is created for \<open>b1\<close> at time 0 and another at time
  600000. At that time, ten minutes after the first, verification for \<open>b1\<close> succeeds
  with the new code and answers \<open>Invalid pairing code\<close> to the old one.
\<close>

theorem newer_entry_counterexample:
  "0 + 600000 \<le> now (run example_env init regenerated) \<and>
   fst (verifyPairingCode (run example_env init regenerated) ''b1'' ''32500000'' None) =
     \<lparr>success = True, message = ''Pairing successful''\<rparr> \<and>
   fst (verifyPairingCode (run example_env init regenerated) ''b1'' ''55000000'' None) =
     \<lparr>success = False, message = ''Invalid pairing code''\<rparr>"
  by (simp add: verifyPairingCode_def run_regenerated)

section \<open>One pairing entry per bot\<close>

text \<open>
  C6. In the state at any time of any run, the pairing table holds at most one entry for
  a bot id. Creating a session for a bot id from credentials that are not registered
  leaves exactly one entry for it, the new one, whatever was there before.
\<close>

theorem one_entry_per_bot:
  assumes "s = advance e t (run e init evs)"
  shows "entries_for b s \<le> 1 \<and>
         (auth_load e (attempts s) = AuthLoaded False me \<longrightarrow>
            map_of (pairingCodes (snd (createBotSessionWithPairing e s b p))) b =
              Some \<lparr>code = generatePairingCode (random e (attempts s)),
                    socket = length (sockets s), phoneNumber = p, createdAt = now s\<rparr> \<and>
            entries_for b (snd (createBotSessionWithPairing e s b p)) = 1)"
proof -
  have k: "keys_distinct s"
    using assms by (simp add: keys_distinct_advance keys_distinct_run keys_distinct_init)
  then have "distinct (map fst (pairingCodes s))" by (simp add: keys_distinct_def)
  then have one: "entries_for b s \<le> 1"
    unfolding entries_for_def by (rule count_key_le_one)
  have new: "map_of (pairingCodes (snd (createBotSessionWithPairing e s b p))) b =
              Some \<lparr>code = generatePairingCode (random e (attempts s)),
                    socket = length (sockets s), phoneNumber = p, createdAt = now s\<rparr> \<and>
            entries_for b (snd (createBotSessionWithPairing e s b p)) = 1"
    if a: "auth_load e (attempts s) = AuthLoaded False me"
  proof -
    let ?s' = "snd (createBotSessionWithPairing e s b p)"
    have m: "map_of (pairingCodes ?s') b =
              Some \<lparr>code = generatePairingCode (random e (attempts s)),
                    socket = length (sockets s), phoneNumber = p, createdAt = now s\<rparr>"
      using a by (simp add: createBotSessionWithPairing_def Let_def AList.update_conv')
    have "keys_distinct ?s'" using k by (rule keys_distinct_create)
    then have d: "distinct (map fst (pairingCodes ?s'))" by (simp add: keys_distinct_def)
    from m have "b \<in> fst ` set (pairingCodes ?s')"
      by (metis map_of_eq_None_iff option.distinct(1))
    with d have "entries_for b ?s' = 1"
      unfolding entries_for_def by (rule count_key_one)
    with m show ?thesis by simp
  qed
  from one new show ?thesis by blast
qed

theorem one_entry_per_bot_witness:
  "paired_state\<lparr>now := 300000\<rparr> =
     advance example_env 300000
       (run example_env init [(0, Generate (generate_body ''b1'' ''+1 (555) 123-4567''))]) \<and>
   entries_for ''b1'' (paired_state\<lparr>now := 300000\<rparr>) \<le> 1 \<and>
   auth_load example_env (attempts (paired_state\<lparr>now := 300000\<rparr>)) = AuthLoaded False None \<and>
   map_of (pairingCodes (snd (createBotSessionWithPairing example_env
       (paired_state\<lparr>now := 300000\<rparr>) ''b1'' ''+15551234567''))) ''b1'' = Some second_entry \<and>
   entries_for ''b1'' (snd (createBotSessionWithPairing example_env
       (paired_state\<lparr>now := 300000\<rparr>) ''b1'' ''+15551234567'')) = 1"
proof -
  have h: "paired_state\<lparr>now := 300000\<rparr> =
     advance example_env 300000
       (run example_env init [(0, Generate (generate_body ''b1'' ''+1 (555) 123-4567''))])"
    unfolding run_first by (simp add: advance_paired)
  have a: "auth_load example_env (attempts (paired_state\<lparr>now := 300000\<rparr>)) = AuthLoaded False None"
    by (simp add: example_env_def)
  have v: "generatePairingCode (random example_env (attempts paired_state)) = ''32500000''"
    "length (sockets paired_state) = 1"
    by (simp_all add: paired_state_eq example_env_def example_code2)
  note r = one_entry_per_bot [OF h, of "''b1''" None "''+15551234567''"]
  show ?thesis
  proof (intro conjI)
    show "paired_state\<lparr>now := 300000\<rparr> =
      advance example_env 300000
        (run example_env init [(0, Generate (generate_body ''b1'' ''+1 (555) 123-4567''))])"
      by (rule h)
    show "entries_for ''b1'' (paired_state\<lparr>now := 300000\<rparr>) \<le> 1"
      using r by blast
    show "auth_load example_env (attempts (paired_state\<lparr>now := 300000\<rparr>)) =
      AuthLoaded False None"
      by (rule a)
    show "map_of (pairingCodes (snd (createBotSessionWithPairing example_env
       (paired_state\<lparr>now := 300000\<rparr>) ''b1'' ''+15551234567''))) ''b1'' = Some second_entry"
      using r a by (simp add: v second_entry_def)
    show "entries_for ''b1'' (snd (createBotSessionWithPairing example_env
       (paired_state\<lparr>now := 300000\<rparr>) ''b1'' ''+15551234567'')) = 1"
      using r a by simp
  qed
qed

end
